theory Spec2Isabelle
  imports Main
begin

section \<open>Effect contexts (Effect.ts)\<close>

text \<open>
  \<^verbatim>\<open>class EffectContext { onCancellation?: () => void; private _isCancelled = false; ... }\<close>

  The cleanup hook is code of the caller. The model keeps whether a hook is installed
  (\<open>onCancellation\<close>) and counts how often it has been invoked (\<open>fired\<close>).
\<close>

record EffectContext =
  isCancelled :: bool
  onCancellation :: bool
  fired :: nat

definition new_EffectContext :: EffectContext where
  "new_EffectContext = \<lparr>isCancelled = False, onCancellation = False, fired = 0\<rparr>"

text \<open>\<^verbatim>\<open>cancel()\<close>: returns at once when already cancelled, otherwise sets the flag and then
  runs the hook when there is one.\<close>

definition EffectContext_cancel :: "EffectContext \<Rightarrow> EffectContext" where
  "EffectContext_cancel c =
     (if isCancelled c then c
      else (let c1 = c\<lparr>isCancelled := True\<rparr>
            in if onCancellation c1 then c1\<lparr>fired := Suc (fired c1)\<rparr> else c1))"

text \<open>
  Contexts are objects that the store, the context tree and the running producers share.
  The heap maps an address to the context stored there; \<open>next_addr\<close> is the address the
  next \<^verbatim>\<open>new EffectContext()\<close> gets.
\<close>

record Heap =
  cells :: "nat \<Rightarrow> EffectContext"
  next_addr :: nat

definition empty_Heap :: Heap where
  "empty_Heap = \<lparr>cells = (\<lambda>_. new_EffectContext), next_addr = 0\<rparr>"

definition alloc_EffectContext :: "Heap \<Rightarrow> nat \<times> Heap" where
  "alloc_EffectContext h =
     (next_addr h,
      h\<lparr>cells := (cells h)(next_addr h := new_EffectContext), next_addr := Suc (next_addr h)\<rparr>)"

definition cancel_at :: "nat \<Rightarrow> Heap \<Rightarrow> Heap" where
  "cancel_at c h = h\<lparr>cells := (cells h)(c := EffectContext_cancel (cells h c))\<rparr>"

section \<open>Asynchronous producers\<close>

text \<open>
  An \<^verbatim>\<open>AsyncGenerator<Action>\<close> is a process that, each time it is resumed, finishes,
  hands over one element, or suspends at an \<^verbatim>\<open>await\<close>. The producer receives the
  context, so after an \<^verbatim>\<open>await\<close> it can read \<^verbatim>\<open>context.isCancelled\<close>: the
  continuation of \<open>Await\<close> takes the flag as it stands when the producer resumes.
  A \<^verbatim>\<open>Promise<Action>\<close> is the same with one final result.
\<close>

datatype 'a AsyncGenerator =
    Done
  | Yield 'a "'a AsyncGenerator"
  | Await "bool \<Rightarrow> 'a AsyncGenerator"

datatype 'a Promise =
    Resolved 'a
  | AwaitP "bool \<Rightarrow> 'a Promise"

section \<open>The effect tree (Effect.ts)\<close>

datatype 'a EffectNode =
    CancelScopeN "string list"
  | CancelIdN string
  | ActionN 'a
  | PromiseN "string option" "'a Promise"
  | GeneratorN "string option" "'a AsyncGenerator"

text \<open>\<^verbatim>\<open>mapEffectNode\<close>, promise case: \<^verbatim>\<open>async (context) => transform(await node.value(context))\<close>.\<close>

primrec mapPromise :: "('a \<Rightarrow> 'b) \<Rightarrow> 'a Promise \<Rightarrow> 'b Promise" where
  "mapPromise f (Resolved x) = AwaitP (\<lambda>_. Resolved (f x))"
| "mapPromise f (AwaitP k) = AwaitP (\<lambda>c. mapPromise f (k c))"

text \<open>\<^verbatim>\<open>mapEffectNode\<close>, generator case:
  \<^verbatim>\<open>for await (const output of node.value(context)) { if (context.isCancelled) { return }; yield transform(output) }\<close>.
  Receiving an element through \<^verbatim>\<open>for await\<close> is itself an await, after which the flag
  is read.\<close>

primrec mapGenerator :: "('a \<Rightarrow> 'b) \<Rightarrow> 'a AsyncGenerator \<Rightarrow> 'b AsyncGenerator" where
  "mapGenerator f Done = Done"
| "mapGenerator f (Yield x g) = Await (\<lambda>c. if c then Done else Yield (f x) (mapGenerator f g))"
| "mapGenerator f (Await k) = Await (\<lambda>c. mapGenerator f (k c))"

fun mapEffectNode :: "'a EffectNode \<Rightarrow> ('a \<Rightarrow> 'b) \<Rightarrow> 'b EffectNode" where
  "mapEffectNode (CancelScopeN sc) transform = CancelScopeN sc"
| "mapEffectNode (CancelIdN i) transform = CancelIdN i"
| "mapEffectNode (ActionN v) transform = ActionN (transform v)"
| "mapEffectNode (PromiseN i p) transform = PromiseN i (mapPromise transform p)"
| "mapEffectNode (GeneratorN i g) transform = GeneratorN i (mapGenerator transform g)"

text \<open>\<^verbatim>\<open>class Effect<Action> { node?: EffectNode<Action>; children: Effect<Action>[] = []; scope: string[] = [] }\<close>\<close>

datatype 'a Effect =
  Effect (node: "'a EffectNode option") (children: "'a Effect list") (scope: "string list")

text \<open>\<^verbatim>\<open>static none = new Effect<any>()\<close>\<close>

definition Effect_none :: "'a Effect" where
  "Effect_none = Effect None [] []"

text \<open>\<^verbatim>\<open>map(transform)\<close> builds a \<^verbatim>\<open>new Effect()\<close>, sets its node when this one has a
  node, and its children; it assigns nothing to the new effect's \<^verbatim>\<open>scope\<close>, which keeps
  the initial value \<^verbatim>\<open>[]\<close>.\<close>

fun Effect_map :: "('a \<Rightarrow> 'b) \<Rightarrow> 'a Effect \<Rightarrow> 'b Effect" where
  "Effect_map transform (Effect n cs sc) =
     Effect (case n of None \<Rightarrow> None | Some nd \<Rightarrow> Some (mapEffectNode nd transform))
            (map (Effect_map transform) cs)
            []"

text \<open>\<^verbatim>\<open>cancellationScope(scope)\<close>: \<^verbatim>\<open>produce(this, draft => { draft.scope.unshift(scope) })\<close>.\<close>

fun cancellationScope :: "string \<Rightarrow> 'a Effect \<Rightarrow> 'a Effect" where
  "cancellationScope s (Effect n cs sc) = Effect n cs (s # sc)"

definition Effect_cancelScope :: "string list \<Rightarrow> 'a Effect" where
  "Effect_cancelScope sc = Effect (Some (CancelScopeN sc)) [] []"

definition Effect_cancelId :: "string \<Rightarrow> 'a Effect" where
  "Effect_cancelId i = Effect (Some (CancelIdN i)) [] []"

text \<open>\<^verbatim>\<open>get isEmpty()\<close>. Its first test, \<^verbatim>\<open>this === Effect.none\<close>, is subsumed by the
  others: \<^verbatim>\<open>Effect.none\<close> has no node and no children.\<close>

fun isEmpty :: "'a Effect \<Rightarrow> bool"
  and isEmpty_children :: "'a Effect list \<Rightarrow> bool" where
  "isEmpty (Effect n cs sc) = (if n \<noteq> None then False else isEmpty_children cs)"
| "isEmpty_children [] = True"
| "isEmpty_children (child # cs) = (if \<not> isEmpty child then False else isEmpty_children cs)"

text \<open>\<^verbatim>\<open>static merge(...effects)\<close>\<close>

definition merge :: "'a Effect list \<Rightarrow> 'a Effect" where
  "merge effects =
     (let nonEmptyEffects = filter (\<lambda>x. \<not> isEmpty x) effects
      in if length nonEmptyEffects = 0 then Effect_none
         else if length nonEmptyEffects = 1 then hd nonEmptyEffects
         else Effect None nonEmptyEffects [])"

section \<open>Effect resolution (Effect.ts)\<close>

text \<open>A long-running unit carries its optional id, its scope, the address of its context
  and the generator that \<^verbatim>\<open>start()\<close> returns.\<close>

datatype 'a ResolvedEffect =
    RCancelScope "string list"
  | RCancelId string
  | RAction 'a
  | RLongRunning "string option" "string list" nat "'a AsyncGenerator"

text \<open>\<^verbatim>\<open>start\<close>, promise case:
  \<^verbatim>\<open>const result = await effectNode.value(context); if (!context.isCancelled) { yield result }\<close>\<close>

primrec startPromise :: "'a Promise \<Rightarrow> 'a AsyncGenerator" where
  "startPromise (Resolved x) = Await (\<lambda>c. if \<not> c then Yield x Done else Done)"
| "startPromise (AwaitP k) = Await (\<lambda>c. startPromise (k c))"

text \<open>\<^verbatim>\<open>start\<close>, generator case:
  \<^verbatim>\<open>for await (const result of effectNode.value(context)) { if (!context.isCancelled) { yield result } }\<close>.
  When the flag is set the element is skipped and the loop goes on to the next one.\<close>

primrec startGenerator :: "'a AsyncGenerator \<Rightarrow> 'a AsyncGenerator" where
  "startGenerator Done = Done"
| "startGenerator (Yield x g) =
     Await (\<lambda>c. if \<not> c then Yield x (startGenerator g) else startGenerator g)"
| "startGenerator (Await k) = Await (\<lambda>c. startGenerator (k c))"

fun start :: "'a EffectNode \<Rightarrow> 'a AsyncGenerator" where
  "start (PromiseN i p) = startPromise p"
| "start (GeneratorN i g) = startGenerator g"
| "start _ = Done"

text \<open>\<^verbatim>\<open>if (effectNode.id) { retval.id = effectNode.id }\<close>: an empty string is falsy.\<close>

fun truthy_id :: "string option \<Rightarrow> string option" where
  "truthy_id None = None"
| "truthy_id (Some s) = (if s = [] then None else Some s)"

fun resolveEffectNode :: "'a EffectNode \<Rightarrow> string list \<Rightarrow> Heap \<Rightarrow> 'a ResolvedEffect \<times> Heap" where
  "resolveEffectNode (CancelScopeN sc) parentScope h = (RCancelScope (parentScope @ sc), h)"
| "resolveEffectNode (CancelIdN i) parentScope h = (RCancelId i, h)"
| "resolveEffectNode (ActionN v) parentScope h = (RAction v, h)"
| "resolveEffectNode (PromiseN i p) parentScope h =
     (let (ctx, h') = alloc_EffectContext h
      in (RLongRunning (truthy_id i) parentScope ctx (start (PromiseN i p)), h'))"
| "resolveEffectNode (GeneratorN i g) parentScope h =
     (let (ctx, h') = alloc_EffectContext h
      in (RLongRunning (truthy_id i) parentScope ctx (start (GeneratorN i g)), h'))"

fun resolveEffect :: "'a Effect \<Rightarrow> string list \<Rightarrow> Heap \<Rightarrow> 'a ResolvedEffect list \<times> Heap"
  and resolveEffect_children ::
    "'a Effect list \<Rightarrow> string list \<Rightarrow> Heap \<Rightarrow> 'a ResolvedEffect list \<times> Heap" where
  "resolveEffect (Effect n cs sc) parentScope h =
     (if isEmpty (Effect n cs sc) then ([], h)
      else (let scope' = parentScope @ sc;
                (list1, h1) = (case n of None \<Rightarrow> ([], h)
                               | Some nd \<Rightarrow> (let (r, h') = resolveEffectNode nd scope' h
                                            in ([r], h')));
                (list2, h2) = resolveEffect_children cs scope' h1
            in (list1 @ list2, h2)))"
| "resolveEffect_children [] parentScope h = ([], h)"
| "resolveEffect_children (child # cs) parentScope h =
     (let (l, h1) = resolveEffect child parentScope h;
          (ls, h2) = resolveEffect_children cs parentScope h1
      in (l @ ls, h2))"

text \<open>The consumer of a long-running unit,
  \<^verbatim>\<open>for await (const action of x.start()) { this.send(action) }\<close>, seen from outside: while
  the generator is suspended at an await, somebody may call \<^verbatim>\<open>cancel()\<close> on its context
  (\<open>CancelCalled\<close>) or the generator is resumed (\<open>Resume\<close>) and reads the flag from the
  heap. A \<^verbatim>\<open>yield\<close> that follows without another await hands its element over at once.
  \<open>consume\<close> returns the actions handed over, in order, during the given events.\<close>

datatype event = CancelCalled | Resume

fun consume :: "'a AsyncGenerator \<Rightarrow> nat \<Rightarrow> event list \<Rightarrow> Heap \<Rightarrow> 'a list \<times> Heap" where
  "consume Done c evs h = ([], h)"
| "consume (Yield x g) c evs h = (let (ys, h') = consume g c evs h in (x # ys, h'))"
| "consume (Await k) c [] h = ([], h)"
| "consume (Await k) c (CancelCalled # evs) h = consume (Await k) c evs (cancel_at c h)"
| "consume (Await k) c (Resume # evs) h = consume (k (isCancelled (cells h c))) c evs h"

text \<open>The pre-order list of the nodes of an effect, each with the scope accumulated from
  the root: the node of an effect first, then the nodes of its children, in child order.
  This states the traversal order on its own, without the \<^verbatim>\<open>isEmpty\<close> shortcut, to compare
  \<open>resolveEffect\<close> with.\<close>

fun preorder :: "'a Effect \<Rightarrow> string list \<Rightarrow> (string list \<times> 'a EffectNode) list"
  and preorder_children :: "'a Effect list \<Rightarrow> string list \<Rightarrow> (string list \<times> 'a EffectNode) list" where
  "preorder (Effect n cs sc) parentScope =
     (case n of None \<Rightarrow> [] | Some nd \<Rightarrow> [(parentScope @ sc, nd)])
     @ preorder_children cs (parentScope @ sc)"
| "preorder_children [] parentScope = []"
| "preorder_children (child # cs) parentScope =
     preorder child parentScope @ preorder_children cs parentScope"

fun resolve_units ::
  "(string list \<times> 'a EffectNode) list \<Rightarrow> Heap \<Rightarrow> 'a ResolvedEffect list \<times> Heap" where
  "resolve_units [] h = ([], h)"
| "resolve_units ((sc, nd) # rest) h =
     (let (r, h1) = resolveEffectNode nd sc h;
          (rs, h2) = resolve_units rest h1
      in (r # rs, h2))"

text \<open>Projections of a resolved list: the values of its action units, and the scopes of
  its long-running units, in order.\<close>

fun action_values :: "'a ResolvedEffect list \<Rightarrow> 'a list" where
  "action_values [] = []"
| "action_values (RAction v # xs) = v # action_values xs"
| "action_values (_ # xs) = action_values xs"

fun long_running_scopes :: "'a ResolvedEffect list \<Rightarrow> string list list" where
  "long_running_scopes [] = []"
| "long_running_scopes (RLongRunning i sc ctx gen # xs) = sc # long_running_scopes xs"
| "long_running_scopes (_ # xs) = long_running_scopes xs"

section \<open>The tree of running contexts (Effect.ts)\<close>

text \<open>A JavaScript \<^verbatim>\<open>Map\<close> keeps its keys in insertion order: an association list with
  distinct keys. \<^verbatim>\<open>get\<close> is \<open>map_of\<close>.\<close>

fun Map_set :: "'k \<Rightarrow> 'v \<Rightarrow> ('k \<times> 'v) list \<Rightarrow> ('k \<times> 'v) list" where
  "Map_set k v [] = [(k, v)]"
| "Map_set k v ((k', v') # m) = (if k' = k then (k, v) # m else (k', v') # Map_set k v m)"

definition Map_delete :: "'k \<Rightarrow> ('k \<times> 'v) list \<Rightarrow> ('k \<times> 'v) list" where
  "Map_delete k m = filter (\<lambda>p. fst p \<noteq> k) m"

text \<open>\<^verbatim>\<open>class EffectContextTree { contexts: EffectContext[] = []; children?: Map<string, EffectContextTree> }\<close>.
  The contexts are held by address.\<close>

datatype EffectContextTree =
  EffectContextTree (contexts: "nat list") (subtrees: "(string \<times> EffectContextTree) list option")

fun cancel_contexts :: "nat list \<Rightarrow> Heap \<Rightarrow> Heap" where
  "cancel_contexts [] h = h"
| "cancel_contexts (c # cs) h = cancel_contexts cs (cancel_at c h)"

text \<open>\<^verbatim>\<open>cancelSelf()\<close>: cancels the contexts of this node and empties the list, then, when
  there are children, runs \<^verbatim>\<open>cancelSelf\<close> on each and deletes the \<^verbatim>\<open>children\<close> field.\<close>

fun cancelSelf :: "EffectContextTree \<Rightarrow> Heap \<Rightarrow> EffectContextTree \<times> Heap"
  and cancelSelf_children :: "(string \<times> EffectContextTree) list \<Rightarrow> Heap \<Rightarrow> Heap" where
  "cancelSelf (EffectContextTree ctxs ch) h =
     (let h1 = cancel_contexts ctxs h
      in case ch of None \<Rightarrow> (EffectContextTree [] None, h1)
         | Some m \<Rightarrow> (EffectContextTree [] None, cancelSelf_children m h1))"
| "cancelSelf_children [] h = h"
| "cancelSelf_children ((k, child) # m) h = cancelSelf_children m (snd (cancelSelf child h))"

text \<open>\<^verbatim>\<open>cancel(scope)\<close>\<close>

fun EffectContextTree_cancel ::
  "EffectContextTree \<Rightarrow> string list \<Rightarrow> Heap \<Rightarrow> EffectContextTree \<times> Heap" where
  "EffectContextTree_cancel t [] h = cancelSelf t h"
| "EffectContextTree_cancel (EffectContextTree ctxs None) (head # rest) h =
     (EffectContextTree ctxs None, h)"
| "EffectContextTree_cancel (EffectContextTree ctxs (Some m)) (head # rest) h =
     (case map_of m head of
        None \<Rightarrow> (EffectContextTree ctxs (Some m), h)
      | Some child \<Rightarrow>
          (let (child', h') = EffectContextTree_cancel child rest h
           in if length rest = 0
              then (EffectContextTree ctxs (Some (Map_delete head m)), h')
              else (EffectContextTree ctxs (Some (Map_set head child' m)), h')))"

text \<open>\<^verbatim>\<open>add(context, scope)\<close>\<close>

fun EffectContextTree_add ::
  "nat \<Rightarrow> string list \<Rightarrow> EffectContextTree \<Rightarrow> Heap \<Rightarrow> EffectContextTree" where
  "EffectContextTree_add ctx [] (EffectContextTree ctxs ch) h =
     (if isCancelled (cells h ctx) then EffectContextTree ctxs ch
      else EffectContextTree (ctxs @ [ctx]) ch)"
| "EffectContextTree_add ctx (head # rest) (EffectContextTree ctxs ch) h =
     (if isCancelled (cells h ctx) then EffectContextTree ctxs ch
      else (let m = (case ch of None \<Rightarrow> [] | Some m0 \<Rightarrow> m0);
                child = (case map_of m head of None \<Rightarrow> EffectContextTree [] None | Some t \<Rightarrow> t)
            in EffectContextTree ctxs
                 (Some (Map_set head (EffectContextTree_add ctx rest child h) m))))"

text \<open>The contexts stored anywhere in a tree, and the contexts stored at a path.\<close>

fun contexts_in :: "EffectContextTree \<Rightarrow> nat set"
  and contexts_in_children :: "(string \<times> EffectContextTree) list \<Rightarrow> nat set" where
  "contexts_in (EffectContextTree ctxs ch) =
     set ctxs \<union> (case ch of None \<Rightarrow> {} | Some m \<Rightarrow> contexts_in_children m)"
| "contexts_in_children [] = {}"
| "contexts_in_children ((k, child) # m) = contexts_in child \<union> contexts_in_children m"

fun contexts_at :: "EffectContextTree \<Rightarrow> string list \<Rightarrow> nat list" where
  "contexts_at (EffectContextTree ctxs ch) [] = ctxs"
| "contexts_at (EffectContextTree ctxs None) (head # rest) = []"
| "contexts_at (EffectContextTree ctxs (Some m)) (head # rest) =
     (case map_of m head of None \<Rightarrow> [] | Some child \<Rightarrow> contexts_at child rest)"

section \<open>Accessors (PropertyPath.ts) and dependencies (DependencyValues.ts)\<close>

text \<open>\<^verbatim>\<open>type KeyPath<Root, Value> = { get: (root) => Value; set: (root, value) => Root }\<close> and
  \<^verbatim>\<open>type CasePath<Root, Value> = { extract: (root) => Value | null; embed: (value) => Root }\<close>.
  \<open>None\<close> is \<^verbatim>\<open>null\<close> (or \<^verbatim>\<open>undefined\<close> for an optional field).\<close>

record ('r, 'v) KeyPath =
  getK :: "'r \<Rightarrow> 'v"
  setK :: "'r \<Rightarrow> 'v \<Rightarrow> 'r"

record ('r, 'v) CasePath =
  extractC :: "'r \<Rightarrow> 'v option"
  embedC :: "'v \<Rightarrow> 'r"

text \<open>\<^verbatim>\<open>casePath(kind)\<close> on values of the form \<^verbatim>\<open>{ kind, value }\<close>, here a pair.\<close>

definition casePath :: "string \<Rightarrow> (string \<times> 'v, 'v) CasePath" where
  "casePath kind =
     \<lparr>extractC = (\<lambda>root. if fst root = kind then Some (snd root) else None),
      embedC = (\<lambda>v. (kind, v))\<rparr>"

text \<open>\<^verbatim>\<open>!x\<close> for the result of an accessor: \<^verbatim>\<open>null\<close> and every value that is not
  truthy.\<close>

definition falsy :: "('v \<Rightarrow> bool) \<Rightarrow> 'v option \<Rightarrow> bool" where
  "falsy truthy x = (case x of None \<Rightarrow> True | Some v \<Rightarrow> \<not> truthy v)"

record DependencyValues =
  storage :: "(string \<times> string) list"

definition new_DependencyValues :: DependencyValues where
  "new_DependencyValues = \<lparr>storage = []\<rparr>"

section \<open>Reducers (Reducer.ts)\<close>

text \<open>\<^verbatim>\<open>type Reducer = ComposedReducer | BasicReducer | PrimitiveReducer\<close>. A primitive
  reducer returns the pair of its \<^verbatim>\<open>_reduce\<close> method. A basic reducer mutates a draft of
  the state and returns an effect, and \<^verbatim>\<open>run\<close> returns what \<^verbatim>\<open>produce\<close> commits: the
  function of \<open>BasicReducer\<close> stands for the method together with that call of \<^verbatim>\<open>produce\<close>.
  It can therefore only return the state it was given or a state that differs from it by
  mutations of a draft; on a primitive state (a number, a string, \<^verbatim>\<open>undefined\<close>) it
  returns the state it was given. For state objects with an identity see \<open>produce\<close> below.\<close>

datatype ('s, 'a) Reducer =
    ComposedReducer "('s, 'a) Reducer"
  | PrimitiveReducer "'s \<Rightarrow> 'a \<Rightarrow> DependencyValues \<Rightarrow> 's \<times> 'a Effect"
  | BasicReducer "'s \<Rightarrow> 'a \<Rightarrow> DependencyValues \<Rightarrow> 's \<times> 'a Effect"

fun run :: "('s, 'a) Reducer \<Rightarrow> 's \<Rightarrow> 'a \<Rightarrow> DependencyValues \<Rightarrow> 's \<times> 'a Effect" where
  "run (ComposedReducer body) s a deps = run body s a deps"
| "run (PrimitiveReducer reduce) s a deps = reduce s a deps"
| "run (BasicReducer reduce) s a deps = reduce s a deps"

text \<open>\<^verbatim>\<open>EmptyReducer._reduce\<close>\<close>

definition EmptyReducer :: "('s, 'a) Reducer" where
  "EmptyReducer = PrimitiveReducer (\<lambda>s a deps. (s, Effect_none))"

text \<open>\<^verbatim>\<open>Scope._reduce\<close>. The tests \<^verbatim>\<open>!childAction\<close> and \<^verbatim>\<open>!childState\<close> hold for
  \<^verbatim>\<open>null\<close> and for every other falsy value (\<^verbatim>\<open>0\<close>, \<^verbatim>\<open>''\<close>, \<^verbatim>\<open>false\<close>): \<open>truthyS\<close> and
  \<open>truthyA\<close> say which local states and local actions are truthy.\<close>

definition Scope_reduce ::
  "('ls \<Rightarrow> bool) \<Rightarrow> ('la \<Rightarrow> bool) \<Rightarrow> ('ps, 'ls) KeyPath + ('ps, 'ls) CasePath \<Rightarrow>
   ('pa, 'la) CasePath \<Rightarrow> ('ls, 'la) Reducer \<Rightarrow>
   'ps \<Rightarrow> 'pa \<Rightarrow> DependencyValues \<Rightarrow> 'ps \<times> 'pa Effect" where
  "Scope_reduce truthyS truthyA statePath actionPath child s a deps =
     (case statePath of
        Inl kp \<Rightarrow>
          (case extractC actionPath a of
             None \<Rightarrow> (s, Effect_none)
           | Some childAction \<Rightarrow>
               if \<not> truthyA childAction then (s, Effect_none)
               else (let (childState, childEffect) = run child (getK kp s) childAction deps;
                         newState = setK kp s childState
                     in (newState, Effect_map (embedC actionPath) childEffect)))
      | Inr cp \<Rightarrow>
          (case (extractC cp s, extractC actionPath a) of
             (Some childState, Some childAction) \<Rightarrow>
               if \<not> truthyS childState \<or> \<not> truthyA childAction then (s, Effect_none)
               else (let (newChildState, childEffect) = run child childState childAction deps
                     in (embedC cp newChildState,
                         Effect_map (embedC actionPath) childEffect))
           | _ \<Rightarrow> (s, Effect_none)))"

definition Scope ::
  "('ls \<Rightarrow> bool) \<Rightarrow> ('la \<Rightarrow> bool) \<Rightarrow> ('ps, 'ls) KeyPath + ('ps, 'ls) CasePath \<Rightarrow>
   ('pa, 'la) CasePath \<Rightarrow> ('ls, 'la) Reducer \<Rightarrow> ('ps, 'pa) Reducer" where
  "Scope truthyS truthyA statePath actionPath child =
     PrimitiveReducer (Scope_reduce truthyS truthyA statePath actionPath child)"

text \<open>\<^verbatim>\<open>CombineReducers._reduce\<close>: the loop over \<^verbatim>\<open>this.reducers\<close>, with the state and the
  list of effects it updates.\<close>

fun CombineReducers_loop ::
  "('s, 'a) Reducer list \<Rightarrow> 's \<Rightarrow> 'a \<Rightarrow> DependencyValues \<Rightarrow> 'a Effect list \<Rightarrow>
   's \<times> 'a Effect list" where
  "CombineReducers_loop [] s a deps effects = (s, effects)"
| "CombineReducers_loop (reducer # rest) s a deps effects =
     (let (newState, newEffect) = run reducer s a deps
      in CombineReducers_loop rest newState a deps (effects @ [newEffect]))"

definition CombineReducers_reduce ::
  "('s, 'a) Reducer list \<Rightarrow> 's \<Rightarrow> 'a \<Rightarrow> DependencyValues \<Rightarrow> 's \<times> 'a Effect" where
  "CombineReducers_reduce reducers s a deps =
     (let (s', effects) = CombineReducers_loop reducers s a deps []
      in (s', merge effects))"

definition CombineReducers :: "('s, 'a) Reducer list \<Rightarrow> ('s, 'a) Reducer" where
  "CombineReducers reducers = PrimitiveReducer (CombineReducers_reduce reducers)"

text \<open>The effects of the siblings in evaluation order, each sibling run on the state its
  predecessors left: what \<^verbatim>\<open>CombineReducers\<close> is to merge.\<close>

fun sibling_effects ::
  "('s, 'a) Reducer list \<Rightarrow> 's \<Rightarrow> 'a \<Rightarrow> DependencyValues \<Rightarrow> 'a Effect list" where
  "sibling_effects [] s a deps = []"
| "sibling_effects (r # rs) s a deps =
     snd (run r s a deps) # sibling_effects rs (fst (run r s a deps)) a deps"

subsection \<open>Conditional child mounting\<close>

text \<open>\<^verbatim>\<open>_IfLetReducer\<close>: the child state is an optional field of the parent state.
  \<^verbatim>\<open>reduceChild\<close> builds \<^verbatim>\<open>newEffect\<close> and returns the other value. The call of
  \<^verbatim>\<open>console.warn\<close> changes neither the state nor the effect and is left out.\<close>

definition IfLet_reduceChild ::
  "('cs \<Rightarrow> bool) \<Rightarrow> ('ca \<Rightarrow> bool) \<Rightarrow> ('cs, 'ca) Reducer \<Rightarrow> ('s, 'cs option) KeyPath \<Rightarrow>
   ('a, 'ca) CasePath \<Rightarrow> ('cs \<Rightarrow> string) \<Rightarrow> 's \<Rightarrow> 'a \<Rightarrow> DependencyValues \<Rightarrow> 's \<times> 'a Effect" where
  "IfLet_reduceChild truthyS truthyA child statePath actionPath idf s a deps =
     (case extractC actionPath a of
        None \<Rightarrow> (s, Effect_none)
      | Some childAction \<Rightarrow>
          if \<not> truthyA childAction then (s, Effect_none)
          else (case getK statePath s of
                  None \<Rightarrow> (s, Effect_none)
                | Some childState \<Rightarrow>
                    if \<not> truthyS childState then (s, Effect_none)
                    else (let (newChildState, childEffect) = run child childState childAction deps;
                              newState = setK statePath s (Some newChildState);
                              newEffect = cancellationScope (idf newChildState)
                                            (Effect_map (embedC actionPath) childEffect)
                          in (newState, Effect_map (embedC actionPath) childEffect))))"

definition IfLet_getChildId ::
  "('cs \<Rightarrow> bool) \<Rightarrow> ('s, 'cs option) KeyPath \<Rightarrow> ('cs \<Rightarrow> string) \<Rightarrow> 's \<Rightarrow> string option" where
  "IfLet_getChildId truthyS statePath idf s =
     (case getK statePath s of
        None \<Rightarrow> None
      | Some childState \<Rightarrow> if truthyS childState then Some (idf childState) else None)"

text \<open>The tail of both \<^verbatim>\<open>_reduce\<close> methods:
  \<^verbatim>\<open>if (oldChildId != newChildId && oldChildId !== null) { effects.push(Effect.cancelScope([oldChildId])) }\<close>\<close>

definition teardown :: "string option \<Rightarrow> string option \<Rightarrow> 'a Effect list" where
  "teardown oldChildId newChildId =
     (case oldChildId of
        None \<Rightarrow> []
      | Some old \<Rightarrow> if oldChildId \<noteq> newChildId then [Effect_cancelScope [old]] else [])"

definition IfLet_reduce ::
  "('cs \<Rightarrow> bool) \<Rightarrow> ('ca \<Rightarrow> bool) \<Rightarrow> ('s, 'a) Reducer \<Rightarrow> ('cs, 'ca) Reducer \<Rightarrow>
   ('s, 'cs option) KeyPath \<Rightarrow> ('a, 'ca) CasePath \<Rightarrow> ('cs \<Rightarrow> string) \<Rightarrow>
   's \<Rightarrow> 'a \<Rightarrow> DependencyValues \<Rightarrow> 's \<times> 'a Effect" where
  "IfLet_reduce truthyS truthyA parent child statePath actionPath idf s a deps =
     (let (s1, e1) = IfLet_reduceChild truthyS truthyA child statePath actionPath idf s a deps;
          oldChildId = IfLet_getChildId truthyS statePath idf s1;
          (s2, e2) = run parent s1 a deps;
          newChildId = IfLet_getChildId truthyS statePath idf s2
      in (s2, merge ([e1, e2] @ teardown oldChildId newChildId)))"

text \<open>\<^verbatim>\<open>_IfCaseLetReducer\<close>: the child state is the payload of one case of the parent state.\<close>

definition IfCaseLet_reduceChild ::
  "('cs \<Rightarrow> bool) \<Rightarrow> ('ca \<Rightarrow> bool) \<Rightarrow> ('cs, 'ca) Reducer \<Rightarrow> ('s, 'cs) CasePath \<Rightarrow>
   ('a, 'ca) CasePath \<Rightarrow> ('cs \<Rightarrow> string) \<Rightarrow> 's \<Rightarrow> 'a \<Rightarrow> DependencyValues \<Rightarrow> 's \<times> 'a Effect" where
  "IfCaseLet_reduceChild truthyS truthyA child statePath actionPath idf s a deps =
     (case extractC actionPath a of
        None \<Rightarrow> (s, Effect_none)
      | Some childAction \<Rightarrow>
          if \<not> truthyA childAction then (s, Effect_none)
          else (case extractC statePath s of
                  None \<Rightarrow> (s, Effect_none)
                | Some childState \<Rightarrow>
                    if \<not> truthyS childState then (s, Effect_none)
                    else (let (newChildState, childEffect) = run child childState childAction deps;
                              newState = embedC statePath newChildState;
                              newEffect = cancellationScope (idf newChildState)
                                            (Effect_map (embedC actionPath) childEffect)
                          in (newState, Effect_map (embedC actionPath) childEffect))))"

definition IfCaseLet_getChildId ::
  "('cs \<Rightarrow> bool) \<Rightarrow> ('s, 'cs) CasePath \<Rightarrow> ('cs \<Rightarrow> string) \<Rightarrow> 's \<Rightarrow> string option" where
  "IfCaseLet_getChildId truthyS statePath idf s =
     (case extractC statePath s of
        None \<Rightarrow> None
      | Some childState \<Rightarrow> if truthyS childState then Some (idf childState) else None)"

definition IfCaseLet_reduce ::
  "('cs \<Rightarrow> bool) \<Rightarrow> ('ca \<Rightarrow> bool) \<Rightarrow> ('s, 'a) Reducer \<Rightarrow> ('cs, 'ca) Reducer \<Rightarrow>
   ('s, 'cs) CasePath \<Rightarrow> ('a, 'ca) CasePath \<Rightarrow> ('cs \<Rightarrow> string) \<Rightarrow>
   's \<Rightarrow> 'a \<Rightarrow> DependencyValues \<Rightarrow> 's \<times> 'a Effect" where
  "IfCaseLet_reduce truthyS truthyA parent child statePath actionPath idf s a deps =
     (let (s1, e1) = IfCaseLet_reduceChild truthyS truthyA child statePath actionPath idf s a deps;
          oldChildId = IfCaseLet_getChildId truthyS statePath idf s1;
          (s2, e2) = run parent s1 a deps;
          newChildId = IfCaseLet_getChildId truthyS statePath idf s2
      in (s2, merge ([e1, e2] @ teardown oldChildId newChildId)))"

text \<open>What conditional mounting is to emit, as a resolved list: the units of the child's
  effect, then those of the parent's effect, then a cancel-scope for the prior identity
  when there was one and the identity changed.\<close>

definition mount_units ::
  "'a Effect \<Rightarrow> 'a Effect \<Rightarrow> string option \<Rightarrow> string option \<Rightarrow> string list \<Rightarrow> Heap \<Rightarrow>
   'a ResolvedEffect list" where
  "mount_units childEffect parentEffect oldChildId newChildId ps h =
     fst (resolve_units (preorder childEffect ps @ preorder parentEffect ps) h)
     @ (case oldChildId of
          None \<Rightarrow> []
        | Some old \<Rightarrow> if oldChildId \<noteq> newChildId then [RCancelScope (ps @ [old])] else [])"

subsection \<open>The sample feature\<close>

text \<open>\<^verbatim>\<open>class SampleFeature\<close>: a reducer with a \<^verbatim>\<open>reduce\<close> method that counts up and down.\<close>

record SampleFeature_State =
  count :: int
  numberFactAlert :: "string option"

datatype SampleFeature_Action = decrementButtonTapped | incrementButtonTapped

definition SampleFeature :: "(SampleFeature_State, SampleFeature_Action) Reducer" where
  "SampleFeature =
     BasicReducer (\<lambda>s a deps.
       case a of
         decrementButtonTapped \<Rightarrow> (s\<lparr>count := count s - 1\<rparr>, Effect_none)
       | incrementButtonTapped \<Rightarrow> (s\<lparr>count := count s + 1\<rparr>, Effect_none))"

subsection \<open>Example reducers\<close>

text \<open>Concrete reducers for the examples below. A child state is an object with an
  identity and a counter, here a pair; an action is a pair \<^verbatim>\<open>{ kind, value }\<close>. The child
  adds the number it is sent to its counter and starts a generator that hands that number
  back. The parent, on any action, replaces a child whose counter has reached 3 by a new
  child with the identity \<open>y\<close> and asks for the action \<open>evicted\<close>.\<close>

type_synonym Child = "string \<times> int"

definition counting_child :: "(Child, nat) Reducer" where
  "counting_child =
     BasicReducer (\<lambda>cs n deps.
       ((fst cs, snd cs + int n), Effect (Some (GeneratorN None (Yield n Done))) [] []))"

definition evicting_parent :: "(Child option, string \<times> nat) Reducer" where
  "evicting_parent =
     PrimitiveReducer (\<lambda>s a deps.
       case s of
         None \<Rightarrow> (s, Effect_none)
       | Some c \<Rightarrow>
           if 3 \<le> snd c then (Some (''y'', 0), Effect (Some (ActionN (''evicted'', 0))) [] [])
           else (s, Effect_none))"

definition evicting_parent_case :: "(string \<times> Child, string \<times> nat) Reducer" where
  "evicting_parent_case =
     PrimitiveReducer (\<lambda>s a deps.
       if 3 \<le> snd (snd s)
       then ((''loaded'', (''y'', 0)), Effect (Some (ActionN (''evicted'', 0))) [] [])
       else (s, Effect_none))"

definition slot :: "(Child option, Child option) KeyPath" where
  "slot = \<lparr>getK = (\<lambda>s. s), setK = (\<lambda>s v. v)\<rparr>"

text \<open>A reducer that, on every action, leaves the state alone and starts a generator
  under the id \<open>poll\<close>.\<close>

definition polling :: "(nat, string) Reducer" where
  "polling =
     BasicReducer (\<lambda>s a deps. (s, Effect (Some (GeneratorN (Some ''poll'') (Yield a Done))) [] []))"

subsection \<open>State objects\<close>

text \<open>
  \<^verbatim>\<open>===\<close> on two objects compares their identity, not their contents. A state object is
  modelled by its address and its contents. Code that builds a new object needs an address
  that no other object has: an object carries the next free address of the heap it lives
  in, and what is built from it takes that address and passes the following one on.
\<close>

record 'c Obj =
  addr :: nat
  next_free :: nat
  contents :: 'c

text \<open>\<^verbatim>\<open>a === b\<close> for two objects.\<close>

definition same_object :: "'c Obj \<Rightarrow> 'c Obj \<Rightarrow> bool" where
  "same_object x y = (addr x = addr y)"

text \<open>\<^verbatim>\<open>produce(base, recipe)\<close>: the base object itself when the recipe has changed nothing
  in the draft, a new object with the fields of the draft otherwise.\<close>

definition produce :: "'c Obj \<Rightarrow> ('c \<Rightarrow> 'c) \<Rightarrow> 'c Obj" where
  "produce base recipe =
     (if recipe (contents base) = contents base then base
      else \<lparr>addr = next_free base, next_free = Suc (next_free base),
            contents = recipe (contents base)\<rparr>)"

text \<open>\<^verbatim>\<open>casePath(kind)\<close> on objects \<^verbatim>\<open>{ kind, value }\<close> whose value is an object in turn, kept
  in the fields of the parent by its address and its contents. \<^verbatim>\<open>extract\<close> returns that
  object; \<^verbatim>\<open>embed\<close> returns \<^verbatim>\<open>{ kind, value }\<close>, a new object at every call.\<close>

definition casePath_obj :: "string \<Rightarrow> ((string \<times> nat \<times> 'v) Obj, 'v Obj) CasePath" where
  "casePath_obj kind =
     \<lparr>extractC = (\<lambda>root.
        if fst (contents root) = kind
        then Some \<lparr>addr = fst (snd (contents root)), next_free = next_free root,
                   contents = snd (snd (contents root))\<rparr>
        else None),
      embedC = (\<lambda>v.
        \<lparr>addr = next_free v, next_free = Suc (next_free v),
         contents = (kind, addr v, contents v)\<rparr>)\<rparr>"

text \<open>The sample feature on a state object: \<^verbatim>\<open>run\<close> hands its \<^verbatim>\<open>reduce\<close> method a draft
  and returns what \<^verbatim>\<open>produce\<close> commits.\<close>

definition SampleFeature_obj :: "(SampleFeature_State Obj, SampleFeature_Action) Reducer" where
  "SampleFeature_obj =
     BasicReducer (\<lambda>s a deps.
       (produce s (\<lambda>draft. fst (run SampleFeature draft a deps)), Effect_none))"

text \<open>A reducer that counts like the sample feature and, after an increment, asks for a
  decrement: one \<^verbatim>\<open>send\<close> of an increment ends with the count it started from, in an
  object built on the way.\<close>

definition bouncing :: "(SampleFeature_State Obj, SampleFeature_Action) Reducer" where
  "bouncing =
     BasicReducer (\<lambda>s a deps.
       (produce s (\<lambda>draft. fst (run SampleFeature draft a deps)),
        case a of
          incrementButtonTapped \<Rightarrow> Effect (Some (ActionN decrementButtonTapped)) [] []
        | decrementButtonTapped \<Rightarrow> Effect_none))"

section \<open>The store (Store.ts)\<close>

text \<open>\<^verbatim>\<open>class RootStore\<close>. The state type is a parameter. The named effects and the tree
  hold contexts by address; a subscriber is a value of type \<open>'cb\<close>.\<close>

record ('s, 'a, 'cb) RootStore =
  state :: 's
  reducer :: "('s, 'a) Reducer"
  namedEffects :: "(string \<times> nat) list"
  effectTree :: EffectContextTree
  callbacks :: "(string \<times> 'cb) list"

definition new_RootStore :: "'s \<Rightarrow> ('s, 'a) Reducer \<Rightarrow> ('s, 'a, 'cb) RootStore" where
  "new_RootStore initialState r =
     \<lparr>state = initialState, reducer = r, namedEffects = [],
      effectTree = EffectContextTree [] None, callbacks = []\<rparr>"

text \<open>What a call on the store can change: the store, the contexts on the heap, the
  tasks launched so far (the context and the generator of each \<^verbatim>\<open>task()\<close>), and the
  calls made to subscribers (the subscriber and its argument), oldest first.\<close>

record ('s, 'a, 'cb) World =
  store :: "('s, 'a, 'cb) RootStore"
  heap :: Heap
  tasks :: "(nat \<times> 'a AsyncGenerator) list"
  notified :: "('cb \<times> 's) list"

definition new_World :: "'s \<Rightarrow> ('s, 'a) Reducer \<Rightarrow> ('s, 'a, 'cb) World" where
  "new_World initialState r =
     \<lparr>store = new_RootStore initialState r, heap = empty_Heap, tasks = [], notified = []\<rparr>"

definition subscribe :: "string \<Rightarrow> 'cb \<Rightarrow> ('s, 'a, 'cb) World \<Rightarrow> ('s, 'a, 'cb) World" where
  "subscribe i callback w =
     w\<lparr>store := (store w)\<lparr>callbacks := Map_set i callback (callbacks (store w))\<rparr>\<rparr>"

definition unsubscribe :: "string \<Rightarrow> ('s, 'a, 'cb) World \<Rightarrow> ('s, 'a, 'cb) World" where
  "unsubscribe i w =
     w\<lparr>store := (store w)\<lparr>callbacks := Map_delete i (callbacks (store w))\<rparr>\<rparr>"

text \<open>\<^verbatim>\<open>this.namedEffects.get(id)?.cancel()\<close>\<close>

definition cancel_named :: "string \<Rightarrow> ('s, 'a, 'cb) World \<Rightarrow> ('s, 'a, 'cb) World" where
  "cancel_named i w =
     (case map_of (namedEffects (store w)) i of
        None \<Rightarrow> w
      | Some ctx \<Rightarrow> w\<lparr>heap := cancel_at ctx (heap w)\<rparr>)"

text \<open>\<^verbatim>\<open>processResolvedEffect(x, pendingActions)\<close>\<close>

fun processResolvedEffect ::
  "'a ResolvedEffect \<Rightarrow> 'a list \<times> ('s, 'a, 'cb) World \<Rightarrow> 'a list \<times> ('s, 'a, 'cb) World" where
  "processResolvedEffect (RCancelScope sc) (pendingActions, w) =
     (let (t, h) = EffectContextTree_cancel (effectTree (store w)) sc (heap w)
      in (pendingActions, w\<lparr>store := (store w)\<lparr>effectTree := t\<rparr>, heap := h\<rparr>))"
| "processResolvedEffect (RCancelId i) (pendingActions, w) = (pendingActions, cancel_named i w)"
| "processResolvedEffect (RAction v) (pendingActions, w) = (pendingActions @ [v], w)"
| "processResolvedEffect (RLongRunning i sc ctx gen) (pendingActions, w) =
     (let w1 = (case i of None \<Rightarrow> w | Some n \<Rightarrow> if n = [] then w else cancel_named n w);
          w2 = w1\<lparr>store := (store w1)\<lparr>effectTree :=
                      EffectContextTree_add ctx sc (effectTree (store w1)) (heap w1)\<rparr>\<rparr>
      in (pendingActions, w2\<lparr>tasks := tasks w2 @ [(ctx, gen)]\<rparr>))"

fun processResolvedEffects ::
  "'a ResolvedEffect list \<Rightarrow> 'a list \<times> ('s, 'a, 'cb) World \<Rightarrow> 'a list \<times> ('s, 'a, 'cb) World" where
  "processResolvedEffects [] pw = pw"
| "processResolvedEffects (x # xs) pw = processResolvedEffects xs (processResolvedEffect x pw)"

text \<open>\<^verbatim>\<open>processAction(action, pendingActions)\<close>\<close>

definition processAction ::
  "'a \<Rightarrow> 'a list \<times> ('s, 'a, 'cb) World \<Rightarrow> 'a list \<times> ('s, 'a, 'cb) World" where
  "processAction a pw =
     (let (pendingActions, w) = pw;
          (newState, effect) = run (reducer (store w)) (state (store w)) a new_DependencyValues;
          w1 = w\<lparr>store := (store w)\<lparr>state := newState\<rparr>\<rparr>;
          (units, h) = resolveEffect effect [] (heap w1)
      in processResolvedEffects units (pendingActions, w1\<lparr>heap := h\<rparr>))"

text \<open>The loop of \<^verbatim>\<open>send\<close>:
  \<^verbatim>\<open>while (true) { const next = pendingActions.shift(); if (!next) { break }; this.processAction(next, pendingActions) }\<close>.
  It leaves when the queue is empty and also when the action at its front is falsy
  (\<open>truthyA\<close> says which actions are truthy). A reducer that keeps emitting actions keeps
  it running: the result is then \<open>None\<close>.\<close>

partial_function (option) drain ::
  "('a \<Rightarrow> bool) \<Rightarrow> 'a list \<times> ('s, 'a, 'cb) World \<Rightarrow> ('s, 'a, 'cb) World option" where
  "drain truthyA pw =
     (case fst pw of
        [] \<Rightarrow> Some (snd pw)
      | next # rest \<Rightarrow>
          if \<not> truthyA next then Some (snd pw)
          else drain truthyA (processAction next (rest, snd pw)))"

text \<open>\<^verbatim>\<open>for (const [_, callback] of this.callbacks) { callback(this.state) }\<close>\<close>

definition notify :: "('s, 'a, 'cb) World \<Rightarrow> ('s, 'a, 'cb) World" where
  "notify w =
     w\<lparr>notified := notified w @ map (\<lambda>(i, callback). (callback, state (store w))) (callbacks (store w))\<rparr>"

text \<open>\<^verbatim>\<open>send(action)\<close>. Its test \<^verbatim>\<open>oldState === this.state\<close> compares two states as
  JavaScript does: \<open>sameS\<close> is \<^verbatim>\<open>===\<close> on the states of the store, which is equality for
  primitive states and \<open>same_object\<close> for state objects.\<close>

definition send ::
  "('s \<Rightarrow> 's \<Rightarrow> bool) \<Rightarrow> ('a \<Rightarrow> bool) \<Rightarrow> 'a \<Rightarrow> ('s, 'a, 'cb) World \<Rightarrow>
   ('s, 'a, 'cb) World option" where
  "send sameS truthyA a w =
     (let oldState = state (store w)
      in case drain truthyA ([a], w) of
           None \<Rightarrow> None
         | Some w' \<Rightarrow> if sameS oldState (state (store w')) then Some w' else Some (notify w'))"

text \<open>A store on a counter object at address 0, with two subscribers.\<close>

definition counter_world ::
  "(SampleFeature_State Obj, SampleFeature_Action) Reducer \<Rightarrow>
   (SampleFeature_State Obj, SampleFeature_Action, string) World" where
  "counter_world r =
     subscribe ''log'' ''logger'' (subscribe ''ui'' ''render''
       (new_World \<lparr>addr = 0, next_free = 1, contents = \<lparr>count = 0, numberFactAlert = None\<rparr>\<rparr> r))"

text \<open>A store on an object \<^verbatim>\<open>{ kind: 'loaded', value }\<close> at address 1 whose value is a
  counter object at address 0. Its reducer scopes a child that does nothing into the
  value through the case path.\<close>

definition loaded_world :: "((string \<times> nat \<times> int) Obj, string \<times> nat, string) World" where
  "loaded_world =
     subscribe ''ui'' ''render''
       (new_World \<lparr>addr = 1, next_free = 2, contents = (''loaded'', 0, 0)\<rparr>
          (Scope (\<lambda>_. True) (\<lambda>n. n \<noteq> 0) (Inr (casePath_obj ''loaded'')) (casePath ''child'')
             EmptyReducer))"

section \<open>Properties of effect resolution\<close>

lemma resolve_units_append:
  "resolve_units (xs @ ys) h =
     (let (a, h1) = resolve_units xs h; (b, h2) = resolve_units ys h1 in (a @ b, h2))"
  by (induction xs arbitrary: h) (auto split: prod.splits)

lemma preorder_isEmpty:
  "isEmpty (e :: 'a Effect) \<Longrightarrow> preorder e ps = []"
  "isEmpty_children (cs :: 'a Effect list) \<Longrightarrow> preorder_children cs ps = []"
  by (induction e ps and cs ps rule: preorder_preorder_children.induct) (auto split: if_splits)

lemma preorder_children_concat:
  "preorder_children cs ps = concat (map (\<lambda>c. preorder c ps) cs)"
  by (induction cs) simp_all

lemma resolveEffect_children_preorder:
  assumes "\<And>c ps h. c \<in> set cs \<Longrightarrow> resolveEffect c ps h = resolve_units (preorder c ps) h"
  shows "resolveEffect_children cs ps h = resolve_units (preorder_children cs ps) h"
  using assms
  by (induction cs arbitrary: h) (auto simp: resolve_units_append split: prod.splits)

lemma resolveEffect_preorder: "resolveEffect e ps h = resolve_units (preorder e ps) h"
proof (induction e arbitrary: ps h)
  case (Effect n cs sc)
  have ch: "\<And>ps h. resolveEffect_children cs ps h = resolve_units (preorder_children cs ps) h"
    by (rule resolveEffect_children_preorder) (rule Effect.IH)
  show ?case
  proof (cases "isEmpty (Effect n cs sc)")
    case True
    have "resolveEffect (Effect n cs sc) ps h = ([], h)"
      by (simp only: resolveEffect.simps True if_True)
    moreover have "preorder (Effect n cs sc) ps = []"
      by (rule preorder_isEmpty(1)[OF True])
    ultimately show ?thesis by simp
  next
    case False
    have "resolveEffect (Effect n cs sc) ps h =
      (let scope' = ps @ sc;
           (list1, h1) = (case n of None \<Rightarrow> ([], h)
                          | Some nd \<Rightarrow> (let (r, h') = resolveEffectNode nd scope' h in ([r], h')));
           (list2, h2) = resolveEffect_children cs scope' h1
       in (list1 @ list2, h2))"
      by (simp only: resolveEffect.simps False if_False)
    then show ?thesis
      by (cases n) (auto simp: ch resolve_units_append split: prod.splits)
  qed
qed

text \<open>
  C5. \<open>resolveEffect\<close> of an empty effect is the empty list (and allocates nothing).
  In general its result is the list of the effect's nodes in pre-order, each resolved
  under the scope accumulated from the parent scope: the node of an effect (when it has
  one) under \<open>ps @ scope e\<close> first, then the nodes of each child under that same extended
  scope, child after child.
\<close>

theorem resolveEffect_is_preorder:
  "(isEmpty e \<longrightarrow> resolveEffect e ps h = ([], h)) \<and>
   resolveEffect e ps h = resolve_units (preorder e ps) h \<and>
   preorder e ps =
     (case node e of None \<Rightarrow> [] | Some nd \<Rightarrow> [(ps @ scope e, nd)])
     @ concat (map (\<lambda>c. preorder c (ps @ scope e)) (children e))"
proof (intro conjI impI)
  assume "isEmpty e"
  then show "resolveEffect e ps h = ([], h)"
    by (simp add: resolveEffect_preorder preorder_isEmpty(1))
next
  show "resolveEffect e ps h = resolve_units (preorder e ps) h"
    by (rule resolveEffect_preorder)
next
  show "preorder e ps =
     (case node e of None \<Rightarrow> [] | Some nd \<Rightarrow> [(ps @ scope e, nd)])
     @ concat (map (\<lambda>c. preorder c (ps @ scope e)) (children e))"
  proof (cases e)
    case (Effect n cs sc)
    then show ?thesis by (cases n) (simp_all add: preorder_children_concat)
  qed
qed

theorem resolveEffect_is_preorder_witness:
  "isEmpty (Effect None [Effect None [] [''x'']] [] :: nat Effect) \<and>
   resolveEffect (Effect None [Effect None [] [''x'']] [] :: nat Effect) [''r''] empty_Heap
     = ([], empty_Heap) \<and>
   fst (resolveEffect
          (Effect (Some (ActionN (1::nat)))
             [Effect (Some (CancelScopeN [''k''])) [Effect (Some (ActionN 2)) [] []] [''a''],
              Effect (Some (ActionN 3)) [] [''b'']] [''p''])
          [''r''] empty_Heap)
     = [RAction 1, RCancelScope [''r'', ''p'', ''a'', ''k''], RAction 2, RAction 3]"
  using resolveEffect_is_preorder
          [of "Effect None [Effect None [] [''x'']] [] :: nat Effect" "[''r'']" empty_Heap]
        resolveEffect_is_preorder
          [of "Effect (Some (ActionN (1::nat)))
             [Effect (Some (CancelScopeN [''k''])) [Effect (Some (ActionN 2)) [] []] [''a''],
              Effect (Some (ActionN 3)) [] [''b'']] [''p'']" "[''r'']" empty_Heap]
  by simp

subsection \<open>\<open>merge\<close> and \<open>map\<close> under resolution\<close>

lemma preorder_children_filter:
  "preorder_children (filter (\<lambda>x. \<not> isEmpty x) es) ps = preorder_children es ps"
  by (induction es) (simp_all add: preorder_isEmpty(1))

lemma preorder_merge: "preorder (merge es) ps = preorder_children es ps"
proof -
  let ?ne = "filter (\<lambda>x. \<not> isEmpty x) es"
  consider "?ne = []" | x where "?ne = [x]" | x y zs where "?ne = x # y # zs"
    by (cases ?ne rule: list.exhaust; cases "tl ?ne") auto
  then show ?thesis
  proof cases
    case 1
    then have "preorder (merge es) ps = []" by (simp add: merge_def Effect_none_def)
    moreover have "preorder_children ?ne ps = []" using 1 by simp
    ultimately show ?thesis by (simp add: preorder_children_filter)
  next
    case 2
    then have "preorder (merge es) ps = preorder x ps" by (simp add: merge_def)
    moreover have "preorder_children ?ne ps = preorder x ps" using 2 by simp
    ultimately show ?thesis by (simp add: preorder_children_filter)
  next
    case 3
    then have "preorder (merge es) ps = preorder_children ?ne ps" by (simp add: merge_def)
    then show ?thesis by (simp add: preorder_children_filter)
  qed
qed

lemma resolveEffect_merge:
  "resolveEffect (merge es) ps h = resolve_units (preorder_children es ps) h"
  by (simp add: resolveEffect_preorder preorder_merge)

lemma scope_Effect_map: "scope (Effect_map f e) = []"
  by (cases e) simp

text \<open>The nodes of a mapped effect are the mapped nodes of the effect, in the same order,
  but every one of them directly under the parent scope.\<close>

lemma preorder_Effect_map:
  "preorder (Effect_map f e) ps = map (\<lambda>p. (ps, mapEffectNode (snd p) f)) (preorder e ps')"
proof (induction e arbitrary: ps ps')
  case (Effect n cs sc)
  have "preorder_children (map (Effect_map f) cs) ps =
        map (\<lambda>p. (ps, mapEffectNode (snd p) f)) (preorder_children cs ps')" for ps ps'
    using Effect.IH by (induction cs) auto
  then show ?case by (cases n) simp_all
qed

lemma resolve_units_map_actions:
  "action_values (fst (resolve_units (map (\<lambda>p. (ps, mapEffectNode (snd p) f)) xs) h)) =
   map f (action_values (fst (resolve_units xs h')))"
proof (induction xs arbitrary: h h')
  case Nil
  then show ?case by simp
next
  case (Cons p xs)
  obtain sc nd where p: "p = (sc, nd)" by (cases p)
  show ?case using Cons.IH
    by (cases nd) (simp_all add: p split_beta alloc_EffectContext_def)
qed

text \<open>What does hold of a mapped effect: its action values are the mapped action values
  of the original, in the same order.\<close>

lemma resolveEffect_map_actions:
  "action_values (fst (resolveEffect (Effect_map f e) ps h)) =
   map f (action_values (fst (resolveEffect e ps' h')))"
  by (simp add: resolveEffect_preorder preorder_Effect_map[of f e ps ps'] resolve_units_map_actions)

lemma resolve_units_scopes:
  "\<forall>p\<in>set xs. fst p = ps \<Longrightarrow>
   list_all (\<lambda>sc. sc = ps) (long_running_scopes (fst (resolve_units xs h)))"
proof (induction xs arbitrary: h)
  case Nil
  then show ?case by simp
next
  case (Cons p xs)
  obtain sc nd where p: "p = (sc, nd)" by (cases p)
  show ?case using Cons.IH Cons.prems
    by (cases nd) (simp_all add: p split_beta alloc_EffectContext_def)
qed

lemma resolveEffect_map_scopes:
  "list_all (\<lambda>sc. sc = ps) (long_running_scopes (fst (resolveEffect (Effect_map f e) ps h)))"
  by (simp add: resolveEffect_preorder preorder_Effect_map[of f e ps ps] resolve_units_scopes)

text \<open>
  C3. \<open>Effect_map\<close> keeps the shape of the tree and rewrites the nodes, but the effect
  it returns, and every effect below it, has the scope \<open>[]\<close>: the scope prefixes of the
  original are lost. Here an effect tagged \<open>a\<close> with a child tagged \<open>b\<close> resolves its
  cancel-scope under \<open>[a, b]\<close> and its generator under \<open>[a, b]\<close>; after \<open>map\<close> both
  resolve under the bare parent scope.
\<close>

theorem Effect_map_drops_scope:
  "scope (cancellationScope ''a'' (Effect (Some (ActionN (1::nat))) [] [])) = [''a''] \<and>
   scope (Effect_map Suc (cancellationScope ''a'' (Effect (Some (ActionN (1::nat))) [] []))) = [] \<and>
   fst (resolveEffect
          (Effect (Some (ActionN (1::nat)))
             [Effect (Some (CancelScopeN [''k''])) [] [''b'']] [''a''])
          [] empty_Heap)
     = [RAction 1, RCancelScope [''a'', ''b'', ''k'']] \<and>
   fst (resolveEffect
          (Effect_map Suc (Effect (Some (ActionN (1::nat)))
             [Effect (Some (CancelScopeN [''k''])) [] [''b'']] [''a'']))
          [] empty_Heap)
     = [RAction 2, RCancelScope [''k'']] \<and>
   long_running_scopes (fst (resolveEffect
          (Effect None [Effect (Some (GeneratorN None (Yield (1::nat) Done))) [] [''b'']] [''a''])
          [] empty_Heap))
     = [[''a'', ''b'']] \<and>
   long_running_scopes (fst (resolveEffect
          (Effect_map Suc
             (Effect None [Effect (Some (GeneratorN None (Yield (1::nat) Done))) [] [''b'']] [''a'']))
          [] empty_Heap))
     = [[]]"
  by (simp add: alloc_EffectContext_def)

section \<open>Properties of cancellation\<close>

lemma cancel_idem: "EffectContext_cancel (EffectContext_cancel c) = EffectContext_cancel c"
  by (simp add: EffectContext_cancel_def Let_def)

lemma cancel_isCancelled: "isCancelled (EffectContext_cancel c)"
  by (simp add: EffectContext_cancel_def Let_def)

lemma cancel_funpow: "(EffectContext_cancel ^^ Suc n) c = EffectContext_cancel c"
  by (induction n) (simp_all add: cancel_idem)

lemma cancel_fired:
  "fired (EffectContext_cancel c) =
     fired c + (if \<not> isCancelled c \<and> onCancellation c then 1 else 0)"
  by (simp add: EffectContext_cancel_def Let_def)

lemma cancel_at_cells:
  "cells (cancel_at c h) c' = (if c' = c then EffectContext_cancel (cells h c') else cells h c')"
  by (simp add: cancel_at_def)

lemma consume_cancelled:
  "isCancelled (cells h c) \<Longrightarrow> fst (consume (startGenerator g) c evs h) = []"
proof (induction evs arbitrary: g h)
  case Nil
  then show ?case by (cases g) simp_all
next
  case (Cons ev evs)
  have keep: "isCancelled (cells (cancel_at c h) c)"
    by (simp add: cancel_at_cells cancel_isCancelled)
  show ?case
  proof (cases g)
    case Done
    then show ?thesis by simp
  next
    case (Yield x g')
    show ?thesis
    proof (cases ev)
      case CancelCalled
      with Cons.IH[OF keep, of g] Yield show ?thesis by simp
    next
      case Resume
      with Cons.IH[OF Cons.prems, of g'] Cons.prems Yield show ?thesis by simp
    qed
  next
    case (Await k)
    show ?thesis
    proof (cases ev)
      case CancelCalled
      with Cons.IH[OF keep, of g] Await show ?thesis by simp
    next
      case Resume
      with Cons.IH[OF Cons.prems, of "k True"] Cons.prems Await show ?thesis by simp
    qed
  qed
qed

lemma consume_stops:
  "fst (consume (startGenerator g) c (pre @ CancelCalled # post) h) =
   fst (consume (startGenerator g) c pre h)"
proof (induction pre arbitrary: g h)
  case Nil
  have keep: "isCancelled (cells (cancel_at c h) c)"
    by (simp add: cancel_at_cells cancel_isCancelled)
  show ?case using consume_cancelled[OF keep, of g post]
    by (cases g) simp_all
next
  case (Cons ev pre)
  show ?case
  proof (cases g)
    case Done
    then show ?thesis by simp
  next
    case (Yield x g')
    show ?thesis
    proof (cases ev)
      case CancelCalled
      with Cons.IH[of g "cancel_at c h"] Yield show ?thesis by simp
    next
      case Resume
      with Cons.IH[of g' h] Yield show ?thesis by (simp add: split_beta)
    qed
  next
    case (Await k)
    show ?thesis
    proof (cases ev)
      case CancelCalled
      with Cons.IH[of g "cancel_at c h"] Await show ?thesis by simp
    next
      case Resume
      with Cons.IH[of "k (isCancelled (cells h c))" h] Await show ?thesis by simp
    qed
  qed
qed

text \<open>
  C4. A generator node resolves to a long-running unit whose generator is
  \<open>start (GeneratorN i g)\<close>, bound to a fresh context. What that generator hands over is
  decided by the flag read just before each delivery: whatever happened before, nothing
  is handed over from the first \<^verbatim>\<open>cancel()\<close> on, and nothing at all when the context is
  already cancelled. Calling \<^verbatim>\<open>cancel()\<close> once or more on a context leaves it cancelled
  and runs its hook once if it had one and was not cancelled yet, and never otherwise.
\<close>

theorem generator_stops_when_cancelled:
  "resolveEffectNode (GeneratorN i g) sc h =
     (RLongRunning (truthy_id i) sc (next_addr h) (start (GeneratorN i g)),
      snd (alloc_EffectContext h)) \<and>
   fst (consume (start (GeneratorN i g)) c (pre @ CancelCalled # post) h) =
     fst (consume (start (GeneratorN i g)) c pre h) \<and>
   (isCancelled (cells h c) \<longrightarrow> fst (consume (start (GeneratorN i g)) c evs h) = []) \<and>
   isCancelled ((EffectContext_cancel ^^ Suc n) ctx) \<and>
   fired ((EffectContext_cancel ^^ Suc n) ctx) =
     fired ctx + (if \<not> isCancelled ctx \<and> onCancellation ctx then 1 else 0)"
  by (simp only: cancel_funpow cancel_fired cancel_isCancelled consume_stops start.simps
        resolveEffectNode.simps)
     (simp add: alloc_EffectContext_def consume_cancelled)

theorem generator_stops_when_cancelled_witness:
  "isCancelled (cells (cancel_at 0 empty_Heap) 0) \<and>
   fst (consume (start (GeneratorN None (Yield (1::nat) (Yield 2 Done)))) 0
          [Resume, Resume] (cancel_at 0 empty_Heap)) = [] \<and>
   fst (consume (start (GeneratorN None (Yield (1::nat) (Yield 2 (Yield 3 Done))))) 0
          ([Resume] @ CancelCalled # [Resume, Resume]) empty_Heap) = [1] \<and>
   fst (consume (start (GeneratorN None (Yield (1::nat) (Yield 2 (Yield 3 Done))))) 0
          [Resume, Resume, Resume] empty_Heap) = [1, 2, 3] \<and>
   fired ((EffectContext_cancel ^^ Suc 2) \<lparr>isCancelled = False, onCancellation = True, fired = 0\<rparr>)
     = 1"
  using generator_stops_when_cancelled
          [of None "Yield (1::nat) (Yield 2 Done)" "[]" empty_Heap 0 "[]" "[]"
              "[Resume, Resume]" 2 "\<lparr>isCancelled = False, onCancellation = True, fired = 0\<rparr>"]
        generator_stops_when_cancelled
          [of None "Yield (1::nat) (Yield 2 (Yield 3 Done))" "[]" "cancel_at 0 empty_Heap" 0
              "[Resume]" "[Resume, Resume]" "[Resume, Resume]" 2
              "\<lparr>isCancelled = False, onCancellation = True, fired = 0\<rparr>"]
  by (simp add: cancel_at_def empty_Heap_def new_EffectContext_def EffectContext_cancel_def)

subsection \<open>Cancelling in the tree of contexts\<close>

lemma cancel_contexts_cells:
  "cells (cancel_contexts cs h) c =
     (if c \<in> set cs then EffectContext_cancel (cells h c) else cells h c)"
  by (induction cs arbitrary: h) (auto simp: cancel_at_cells cancel_idem)

lemma cancelSelf_cells:
  "cells (snd (cancelSelf t h)) c =
     (if c \<in> contexts_in t then EffectContext_cancel (cells h c) else cells h c)"
  "cells (cancelSelf_children m h) c =
     (if c \<in> contexts_in_children m then EffectContext_cancel (cells h c) else cells h c)"
  by (induction t h and m h rule: cancelSelf_cancelSelf_children.induct)
     (auto simp: cancel_contexts_cells cancel_idem Let_def split: option.splits)

lemma cancelSelf_tree: "fst (cancelSelf t h) = EffectContextTree [] None"
  by (cases t) (simp add: Let_def split: option.splits)

lemma map_of_Map_delete: "map_of (Map_delete k m) k' = (if k' = k then None else map_of m k')"
  by (induction m) (auto simp: Map_delete_def)

lemma map_of_Map_set: "map_of (Map_set k v m) k' = (if k' = k then Some v else map_of m k')"
  by (induction m) auto

lemma cancel_child:
  "map_of m a = Some sub \<Longrightarrow>
   EffectContextTree_cancel (EffectContextTree ctxs (Some m)) [a] h =
     (EffectContextTree ctxs (Some (Map_delete a m)), snd (cancelSelf sub h))"
  by (simp add: split_beta)

lemma cancel_absent_child:
  "map_of m a = None \<Longrightarrow>
   EffectContextTree_cancel (EffectContextTree ctxs (Some m)) (a # rest) h =
     (EffectContextTree ctxs (Some m), h)"
  "EffectContextTree_cancel (EffectContextTree ctxs None) (a # rest) h =
     (EffectContextTree ctxs None, h)"
  by simp_all

text \<open>
  C9. Cancelling the empty path leaves the empty tree and calls \<^verbatim>\<open>cancel()\<close> on every
  context stored anywhere in the tree, and on no other, so all of them are cancelled.
  Cancelling the path \<open>[a]\<close>, when the root has a child \<open>a\<close>, removes that child from the
  root, keeps every other child \<open>b\<close> as it was, and calls \<^verbatim>\<open>cancel()\<close> on exactly the
  contexts stored at or below \<open>a\<close>: every other context, a sibling's among them, is left
  as it was.
\<close>

theorem EffectContextTree_cancel_scope:
  "fst (EffectContextTree_cancel t [] h) = EffectContextTree [] None \<and>
   cells (snd (EffectContextTree_cancel t [] h)) c =
     (if c \<in> contexts_in t then EffectContext_cancel (cells h c) else cells h c) \<and>
   (c \<in> contexts_in t \<longrightarrow> isCancelled (cells (snd (EffectContextTree_cancel t [] h)) c)) \<and>
   (map_of m a = Some sub \<longrightarrow>
      fst (EffectContextTree_cancel (EffectContextTree ctxs (Some m)) [a] h) =
        EffectContextTree ctxs (Some (Map_delete a m)) \<and>
      map_of (Map_delete a m) a = None \<and>
      (b \<noteq> a \<longrightarrow> map_of (Map_delete a m) b = map_of m b) \<and>
      cells (snd (EffectContextTree_cancel (EffectContextTree ctxs (Some m)) [a] h)) c =
        (if c \<in> contexts_in sub then EffectContext_cancel (cells h c) else cells h c) \<and>
      (c \<in> contexts_in sub \<longrightarrow>
         isCancelled (cells (snd (EffectContextTree_cancel (EffectContextTree ctxs (Some m)) [a] h)) c)))"
proof (intro conjI impI)
  show "fst (EffectContextTree_cancel t [] h) = EffectContextTree [] None"
    by (simp add: cancelSelf_tree)
  show all: "cells (snd (EffectContextTree_cancel t [] h)) c =
     (if c \<in> contexts_in t then EffectContext_cancel (cells h c) else cells h c)"
    by (simp add: cancelSelf_cells(1))
  show "isCancelled (cells (snd (EffectContextTree_cancel t [] h)) c)" if "c \<in> contexts_in t"
    using that by (simp only: all if_True cancel_isCancelled)
next
  assume sub: "map_of m a = Some sub"
  show "fst (EffectContextTree_cancel (EffectContextTree ctxs (Some m)) [a] h) =
        EffectContextTree ctxs (Some (Map_delete a m))"
    by (simp only: cancel_child[OF sub] fst_conv)
  show "map_of (Map_delete a m) a = None"
    by (simp add: map_of_Map_delete)
  show "map_of (Map_delete a m) b = map_of m b" if "b \<noteq> a"
    using that by (simp add: map_of_Map_delete)
  show below: "cells (snd (EffectContextTree_cancel (EffectContextTree ctxs (Some m)) [a] h)) c =
        (if c \<in> contexts_in sub then EffectContext_cancel (cells h c) else cells h c)"
    by (simp only: cancel_child[OF sub] snd_conv cancelSelf_cells(1))
  show "isCancelled (cells (snd (EffectContextTree_cancel (EffectContextTree ctxs (Some m)) [a] h)) c)"
    if "c \<in> contexts_in sub"
    using that by (simp only: below if_True cancel_isCancelled)
qed

theorem EffectContextTree_cancel_scope_witness:
  "2 \<in> contexts_in
     (EffectContextTree []
        (Some [(''a'', EffectContextTree [0] (Some [(''deep'', EffectContextTree [1] None)])),
               (''b'', EffectContextTree [2] None)])) \<and>
   isCancelled (cells (snd (EffectContextTree_cancel
     (EffectContextTree []
        (Some [(''a'', EffectContextTree [0] (Some [(''deep'', EffectContextTree [1] None)])),
               (''b'', EffectContextTree [2] None)])) [] empty_Heap)) 2) \<and>
   map_of [(''a'', EffectContextTree [0] (Some [(''deep'', EffectContextTree [1] None)])),
           (''b'', EffectContextTree [2] None)] ''a''
     = Some (EffectContextTree [0] (Some [(''deep'', EffectContextTree [1] None)])) \<and>
   1 \<in> contexts_in (EffectContextTree [0] (Some [(''deep'', EffectContextTree [1] None)])) \<and>
   ''b'' \<noteq> ''a'' \<and>
   EffectContextTree_cancel
     (EffectContextTree []
        (Some [(''a'', EffectContextTree [0] (Some [(''deep'', EffectContextTree [1] None)])),
               (''b'', EffectContextTree [2] None)])) [''a''] empty_Heap
     = (EffectContextTree [] (Some [(''b'', EffectContextTree [2] None)]),
        cancel_at 1 (cancel_at 0 empty_Heap)) \<and>
   isCancelled (cells (cancel_at 1 (cancel_at 0 empty_Heap)) 1) \<and>
   \<not> isCancelled (cells (cancel_at 1 (cancel_at 0 empty_Heap)) 2)"
  using EffectContextTree_cancel_scope
          [of "EffectContextTree []
                 (Some [(''a'', EffectContextTree [0] (Some [(''deep'', EffectContextTree [1] None)])),
                        (''b'', EffectContextTree [2] None)])"
              empty_Heap 2
              "[(''a'', EffectContextTree [0] (Some [(''deep'', EffectContextTree [1] None)])),
                (''b'', EffectContextTree [2] None)]"
              "''a''" "EffectContextTree [0] (Some [(''deep'', EffectContextTree [1] None)])"
              "[]" "''b''"]
        EffectContextTree_cancel_scope
          [of "EffectContextTree []
                 (Some [(''a'', EffectContextTree [0] (Some [(''deep'', EffectContextTree [1] None)])),
                        (''b'', EffectContextTree [2] None)])"
              empty_Heap 1
              "[(''a'', EffectContextTree [0] (Some [(''deep'', EffectContextTree [1] None)])),
                (''b'', EffectContextTree [2] None)]"
              "''a''" "EffectContextTree [0] (Some [(''deep'', EffectContextTree [1] None)])"
              "[]" "''b''"]
  by (simp add: Map_delete_def cancel_at_def empty_Heap_def new_EffectContext_def
        EffectContext_cancel_def)

section \<open>Properties of the reducers\<close>

lemma CombineReducers_loop_eq:
  "CombineReducers_loop rs s a d effs =
     (foldl (\<lambda>s r. fst (run r s a d)) s rs, effs @ sibling_effects rs s a d)"
  by (induction rs arbitrary: s effs) (simp_all add: split_beta)

lemma CombineReducers_reduce_eq:
  "CombineReducers_reduce rs s a d =
     (foldl (\<lambda>s r. fst (run r s a d)) s rs, merge (sibling_effects rs s a d))"
  by (simp add: CombineReducers_reduce_def CombineReducers_loop_eq)

text \<open>
  C6. \<open>CombineReducers\<close> runs its reducers from left to right on the same action, each
  on the state its predecessors returned, and merges their effects in that order: the
  merged effect resolves to the units of the first sibling's effect, then the second's,
  and so on. With two reducers the second runs on the state the first returned. One
  \<open>send\<close> of the increment action to a store that combines the sample feature with
  itself takes the count from 0 to 2, whatever \<^verbatim>\<open>===\<close> says of the two states.
\<close>

theorem CombineReducers_threads_state:
  "CombineReducers_reduce rs s a d =
     (foldl (\<lambda>s r. fst (run r s a d)) s rs, merge (sibling_effects rs s a d)) \<and>
   resolveEffect (snd (CombineReducers_reduce rs s a d)) ps h =
     resolve_units (concat (map (\<lambda>e. preorder e ps) (sibling_effects rs s a d))) h \<and>
   run (CombineReducers [r1, r2]) s a d =
     (fst (run r2 (fst (run r1 s a d)) a d),
      merge [snd (run r1 s a d), snd (run r2 (fst (run r1 s a d)) a d)]) \<and>
   map_option (\<lambda>w. state (store w))
     (send sameS (\<lambda>_. True) incrementButtonTapped
        (new_World \<lparr>count = 0, numberFactAlert = None\<rparr>
           (CombineReducers [SampleFeature, SampleFeature])
         :: (SampleFeature_State, SampleFeature_Action, unit) World))
     = Some \<lparr>count = 2, numberFactAlert = None\<rparr>"
proof (intro conjI)
  show "CombineReducers_reduce rs s a d =
     (foldl (\<lambda>s r. fst (run r s a d)) s rs, merge (sibling_effects rs s a d))"
    by (rule CombineReducers_reduce_eq)
  show "resolveEffect (snd (CombineReducers_reduce rs s a d)) ps h =
     resolve_units (concat (map (\<lambda>e. preorder e ps) (sibling_effects rs s a d))) h"
    by (simp add: CombineReducers_reduce_eq resolveEffect_merge preorder_children_concat)
  show "run (CombineReducers [r1, r2]) s a d =
     (fst (run r2 (fst (run r1 s a d)) a d),
      merge [snd (run r1 s a d), snd (run r2 (fst (run r1 s a d)) a d)])"
    by (simp add: CombineReducers_def CombineReducers_reduce_eq)
  show "map_option (\<lambda>w. state (store w))
     (send sameS (\<lambda>_. True) incrementButtonTapped
        (new_World \<lparr>count = 0, numberFactAlert = None\<rparr>
           (CombineReducers [SampleFeature, SampleFeature])
         :: (SampleFeature_State, SampleFeature_Action, unit) World))
     = Some \<lparr>count = 2, numberFactAlert = None\<rparr>"
    by (simp add: send_def drain.simps processAction_def new_World_def new_RootStore_def
        CombineReducers_def CombineReducers_reduce_def SampleFeature_def merge_def
        Effect_none_def notify_def)
qed

theorem CombineReducers_threads_state_witness:
  "fst (run (CombineReducers [SampleFeature, SampleFeature])
          \<lparr>count = 0, numberFactAlert = None\<rparr> incrementButtonTapped new_DependencyValues)
     = \<lparr>count = 2, numberFactAlert = None\<rparr> \<and>
   fst (run (CombineReducers [SampleFeature, SampleFeature, SampleFeature])
          \<lparr>count = 5, numberFactAlert = None\<rparr> decrementButtonTapped new_DependencyValues)
     = \<lparr>count = 2, numberFactAlert = None\<rparr>"
  using CombineReducers_threads_state
          [of "[SampleFeature, SampleFeature, SampleFeature]" "\<lparr>count = 5, numberFactAlert = None\<rparr>"
              decrementButtonTapped new_DependencyValues "[]" empty_Heap
              SampleFeature SampleFeature "(=)"]
        CombineReducers_threads_state
          [of "[SampleFeature, SampleFeature]" "\<lparr>count = 0, numberFactAlert = None\<rparr>"
              incrementButtonTapped new_DependencyValues "[]" empty_Heap
              SampleFeature SampleFeature "(=)"]
  by (simp add: CombineReducers_def SampleFeature_def)

lemma teardown_preorder:
  "preorder_children (teardown old new) ps =
     (case old of None \<Rightarrow> [] | Some x \<Rightarrow> if old \<noteq> new then [(ps, CancelScopeN [x])] else [])"
  by (simp add: teardown_def Effect_cancelScope_def split: option.splits)

lemma resolve_units_snoc_cancel:
  "fst (resolve_units (xs @ [(ps, CancelScopeN sc)]) h) =
   fst (resolve_units xs h) @ [RCancelScope (ps @ sc)]"
  by (simp add: resolve_units_append split_beta)

lemma mount_resolved:
  "fst (resolveEffect (merge ([e1, e2] @ teardown old new)) ps h) = mount_units e1 e2 old new ps h"
proof -
  have "preorder (merge ([e1, e2] @ teardown old new)) ps =
        (preorder e1 ps @ preorder e2 ps) @ preorder_children (teardown old new) ps"
    by (simp add: preorder_merge)
  then show ?thesis
    using resolve_units_snoc_cancel[of "preorder e1 ps @ preorder e2 ps" ps _ h]
    by (auto simp: resolveEffect_preorder teardown_preorder mount_units_def split: option.splits)
qed

lemma IfLet_reduce_eq:
  "IfLet_reduce tS tA parent child sp ap idf s a d =
    (fst (run parent (fst (IfLet_reduceChild tS tA child sp ap idf s a d)) a d),
     merge ([snd (IfLet_reduceChild tS tA child sp ap idf s a d),
             snd (run parent (fst (IfLet_reduceChild tS tA child sp ap idf s a d)) a d)]
            @ teardown
                (IfLet_getChildId tS sp idf (fst (IfLet_reduceChild tS tA child sp ap idf s a d)))
                (IfLet_getChildId tS sp idf
                   (fst (run parent (fst (IfLet_reduceChild tS tA child sp ap idf s a d)) a d)))))"
  by (simp add: IfLet_reduce_def split_beta Let_def)

lemma IfCaseLet_reduce_eq:
  "IfCaseLet_reduce tS tA parent child sp ap idf s a d =
    (fst (run parent (fst (IfCaseLet_reduceChild tS tA child sp ap idf s a d)) a d),
     merge ([snd (IfCaseLet_reduceChild tS tA child sp ap idf s a d),
             snd (run parent (fst (IfCaseLet_reduceChild tS tA child sp ap idf s a d)) a d)]
            @ teardown
                (IfCaseLet_getChildId tS sp idf (fst (IfCaseLet_reduceChild tS tA child sp ap idf s a d)))
                (IfCaseLet_getChildId tS sp idf
                   (fst (run parent (fst (IfCaseLet_reduceChild tS tA child sp ap idf s a d)) a d)))))"
  by (simp add: IfCaseLet_reduce_def split_beta Let_def)

lemma IfLet_reduceChild_run:
  "extractC ap a = Some ca \<and> tA ca \<and> getK sp s = Some cs \<and> tS cs \<Longrightarrow>
   IfLet_reduceChild tS tA child sp ap idf s a d =
     (setK sp s (Some (fst (run child cs ca d))), Effect_map (embedC ap) (snd (run child cs ca d)))"
  by (simp add: IfLet_reduceChild_def split_beta Let_def)

lemma IfLet_reduceChild_skip:
  "falsy tA (extractC ap a) \<or> falsy tS (getK sp s) \<Longrightarrow>
   IfLet_reduceChild tS tA child sp ap idf s a d = (s, Effect_none)"
  by (auto simp: IfLet_reduceChild_def falsy_def split: option.splits)

lemma IfCaseLet_reduceChild_run:
  "extractC ap a = Some ca \<and> tA ca \<and> extractC cp s = Some cs \<and> tS cs \<Longrightarrow>
   IfCaseLet_reduceChild tS tA child cp ap idf s a d =
     (embedC cp (fst (run child cs ca d)), Effect_map (embedC ap) (snd (run child cs ca d)))"
  by (simp add: IfCaseLet_reduceChild_def split_beta Let_def)

lemma IfCaseLet_reduceChild_skip:
  "falsy tA (extractC ap a) \<or> falsy tS (extractC cp s) \<Longrightarrow>
   IfCaseLet_reduceChild tS tA child cp ap idf s a d = (s, Effect_none)"
  by (auto simp: IfCaseLet_reduceChild_def falsy_def split: option.splits)

lemma IfLet_mounted:
  "fst (IfLet_reduce tS tA parent child sp ap idf s a d) =
     fst (run parent (fst (IfLet_reduceChild tS tA child sp ap idf s a d)) a d) \<and>
   fst (resolveEffect (snd (IfLet_reduce tS tA parent child sp ap idf s a d)) ps h) =
     mount_units
       (snd (IfLet_reduceChild tS tA child sp ap idf s a d))
       (snd (run parent (fst (IfLet_reduceChild tS tA child sp ap idf s a d)) a d))
       (IfLet_getChildId tS sp idf (fst (IfLet_reduceChild tS tA child sp ap idf s a d)))
       (IfLet_getChildId tS sp idf
          (fst (run parent (fst (IfLet_reduceChild tS tA child sp ap idf s a d)) a d)))
       ps h"
  by (simp only: IfLet_reduce_eq fst_conv snd_conv mount_resolved)

lemma IfCaseLet_mounted:
  "fst (IfCaseLet_reduce tS tA parent child cp ap idf s a d) =
     fst (run parent (fst (IfCaseLet_reduceChild tS tA child cp ap idf s a d)) a d) \<and>
   fst (resolveEffect (snd (IfCaseLet_reduce tS tA parent child cp ap idf s a d)) ps h) =
     mount_units
       (snd (IfCaseLet_reduceChild tS tA child cp ap idf s a d))
       (snd (run parent (fst (IfCaseLet_reduceChild tS tA child cp ap idf s a d)) a d))
       (IfCaseLet_getChildId tS cp idf (fst (IfCaseLet_reduceChild tS tA child cp ap idf s a d)))
       (IfCaseLet_getChildId tS cp idf
          (fst (run parent (fst (IfCaseLet_reduceChild tS tA child cp ap idf s a d)) a d)))
       ps h"
  by (simp only: IfCaseLet_reduce_eq fst_conv snd_conv mount_resolved)

text \<open>
  C7. An action that changes the identity of the child slot from \<open>x\<close> to \<open>y\<close> does not
  always yield a cancel-scope for \<open>[x]\<close>. The identity is first read after the child step:
  when the child reducer itself changes its identity from \<open>x\<close> to \<open>y\<close> and the parent
  leaves it alone, the two readings agree and the resolved list is empty.
\<close>

theorem child_renaming_is_not_detected:
  "IfLet_getChildId (\<lambda>_. True) slot fst (Some (''x'', 0)) = Some ''x'' \<and>
   IfLet_reduce (\<lambda>_. True) (\<lambda>n. n \<noteq> 0) EmptyReducer (BasicReducer (\<lambda>cs n deps. ((''y'', snd cs), Effect_none))) slot (casePath ''child'') fst (Some (''x'', 0)) (''child'', 1::nat) new_DependencyValues
     = (Some (''y'', 0), Effect_none) \<and>
   IfLet_getChildId (\<lambda>_. True) slot fst
     (fst (IfLet_reduce (\<lambda>_. True) (\<lambda>n. n \<noteq> 0) EmptyReducer (BasicReducer (\<lambda>cs n deps. ((''y'', snd cs), Effect_none))) slot (casePath ''child'') fst (Some (''x'', 0)) (''child'', 1::nat) new_DependencyValues))
     = Some ''y'' \<and>
   fst (resolveEffect
     (snd (IfLet_reduce (\<lambda>_. True) (\<lambda>n. n \<noteq> 0) EmptyReducer (BasicReducer (\<lambda>cs n deps. ((''y'', snd cs), Effect_none))) slot (casePath ''child'') fst (Some (''x'', 0)) (''child'', 1::nat) new_DependencyValues))
     [] empty_Heap) = [] \<and>
   RCancelScope [''x''] \<notin> set (fst (resolveEffect
     (snd (IfLet_reduce (\<lambda>_. True) (\<lambda>n. n \<noteq> 0) EmptyReducer (BasicReducer (\<lambda>cs n deps. ((''y'', snd cs), Effect_none))) slot (casePath ''child'') fst (Some (''x'', 0)) (''child'', 1::nat) new_DependencyValues))
     [] empty_Heap))"
  by (simp add: IfLet_reduce_def IfLet_reduceChild_def IfLet_getChildId_def EmptyReducer_def
        slot_def casePath_def teardown_def merge_def Effect_none_def)

text \<open>
  C7, as the code has it. When the action is one for the child and the slot holds a child,
  both conditional-mount reducers run the child on the slot, put its new state back, and
  run the parent on the result; otherwise they run the parent on the state as it is. The
  state they return is the parent's. Their effect resolves to \<open>mount_units\<close>: the units of
  the child's effect mapped through the action embedding, then those of the parent's
  effect, then a cancel-scope for the identity read after the child step, when there was
  one and the identity read after the parent step differs from it. That first identity is
  the identity of the child's new state. So when the parent step changes the identity
  from \<open>x\<close> to \<open>y\<close>, a cancel-scope for \<open>[x]\<close> comes last, and a cancel-scope for \<open>[y]\<close> is
  in the list only if the child's or the parent's own effect put it there; when the
  parent step removes the child, the cancel-scope for \<open>[x]\<close> comes last as well; when
  there was no identity or the parent step did not change it, nothing is appended.
\<close>

theorem conditional_mount_teardown:
  "(extractC ap a = Some ca \<and> tA ca \<and> getK sp s = Some cs \<and> tS cs \<longrightarrow>
      fst (IfLet_reduce tS tA parent child sp ap idf s a d) =
        fst (run parent (setK sp s (Some (fst (run child cs ca d)))) a d) \<and>
      fst (resolveEffect (snd (IfLet_reduce tS tA parent child sp ap idf s a d)) ps h) =
        mount_units
          (Effect_map (embedC ap) (snd (run child cs ca d)))
          (snd (run parent (setK sp s (Some (fst (run child cs ca d)))) a d))
          (IfLet_getChildId tS sp idf (setK sp s (Some (fst (run child cs ca d)))))
          (IfLet_getChildId tS sp idf (fst (run parent (setK sp s (Some (fst (run child cs ca d)))) a d)))
          ps h \<and>
      (getK sp (setK sp s (Some (fst (run child cs ca d)))) = Some (fst (run child cs ca d)) \<and> tS (fst (run child cs ca d)) \<longrightarrow>
         IfLet_getChildId tS sp idf (setK sp s (Some (fst (run child cs ca d)))) = Some (idf (fst (run child cs ca d))))) \<and>
   (falsy tA (extractC ap a) \<or> falsy tS (getK sp s) \<longrightarrow>
      fst (IfLet_reduce tS tA parent child sp ap idf s a d) = fst (run parent s a d) \<and>
      fst (resolveEffect (snd (IfLet_reduce tS tA parent child sp ap idf s a d)) ps h) =
        mount_units Effect_none (snd (run parent s a d))
          (IfLet_getChildId tS sp idf s) (IfLet_getChildId tS sp idf (fst (run parent s a d))) ps h) \<and>
   (extractC ap' a' = Some ca' \<and> tA' ca' \<and> extractC cp s' = Some cs' \<and> tS' cs' \<longrightarrow>
      fst (IfCaseLet_reduce tS' tA' parent' child' cp ap' idf' s' a' d') =
        fst (run parent' (embedC cp (fst (run child' cs' ca' d'))) a' d') \<and>
      fst (resolveEffect (snd (IfCaseLet_reduce tS' tA' parent' child' cp ap' idf' s' a' d')) ps h) =
        mount_units
          (Effect_map (embedC ap') (snd (run child' cs' ca' d')))
          (snd (run parent' (embedC cp (fst (run child' cs' ca' d'))) a' d'))
          (IfCaseLet_getChildId tS' cp idf' (embedC cp (fst (run child' cs' ca' d'))))
          (IfCaseLet_getChildId tS' cp idf' (fst (run parent' (embedC cp (fst (run child' cs' ca' d'))) a' d')))
          ps h \<and>
      (extractC cp (embedC cp (fst (run child' cs' ca' d'))) = Some (fst (run child' cs' ca' d')) \<and> tS' (fst (run child' cs' ca' d')) \<longrightarrow>
         IfCaseLet_getChildId tS' cp idf' (embedC cp (fst (run child' cs' ca' d'))) = Some (idf' (fst (run child' cs' ca' d'))))) \<and>
   (falsy tA' (extractC ap' a') \<or> falsy tS' (extractC cp s') \<longrightarrow>
      fst (IfCaseLet_reduce tS' tA' parent' child' cp ap' idf' s' a' d') = fst (run parent' s' a' d') \<and>
      fst (resolveEffect (snd (IfCaseLet_reduce tS' tA' parent' child' cp ap' idf' s' a' d')) ps h) =
        mount_units Effect_none (snd (run parent' s' a' d'))
          (IfCaseLet_getChildId tS' cp idf' s') (IfCaseLet_getChildId tS' cp idf' (fst (run parent' s' a' d'))) ps h) \<and>
   (x \<noteq> y \<longrightarrow>
      mount_units e1 e2 (Some x) (Some y) ps h =
        fst (resolve_units (preorder e1 ps @ preorder e2 ps) h) @ [RCancelScope (ps @ [x])] \<and>
      (RCancelScope (ps @ [y]) \<in> set (mount_units e1 e2 (Some x) (Some y) ps h)) =
        (RCancelScope (ps @ [y]) \<in> set (fst (resolve_units (preorder e1 ps @ preorder e2 ps) h)))) \<and>
   mount_units e1 e2 (Some x) None ps h =
     fst (resolve_units (preorder e1 ps @ preorder e2 ps) h) @ [RCancelScope (ps @ [x])] \<and>
   mount_units e1 e2 None new ps h = fst (resolve_units (preorder e1 ps @ preorder e2 ps) h) \<and>
   mount_units e1 e2 old old ps h = fst (resolve_units (preorder e1 ps @ preorder e2 ps) h)"
proof -
  have A: "(extractC ap a = Some ca \<and> tA ca \<and> getK sp s = Some cs \<and> tS cs \<longrightarrow>
      fst (IfLet_reduce tS tA parent child sp ap idf s a d) =
        fst (run parent (setK sp s (Some (fst (run child cs ca d)))) a d) \<and>
      fst (resolveEffect (snd (IfLet_reduce tS tA parent child sp ap idf s a d)) ps h) =
        mount_units
          (Effect_map (embedC ap) (snd (run child cs ca d)))
          (snd (run parent (setK sp s (Some (fst (run child cs ca d)))) a d))
          (IfLet_getChildId tS sp idf (setK sp s (Some (fst (run child cs ca d)))))
          (IfLet_getChildId tS sp idf (fst (run parent (setK sp s (Some (fst (run child cs ca d)))) a d)))
          ps h \<and>
      (getK sp (setK sp s (Some (fst (run child cs ca d)))) = Some (fst (run child cs ca d)) \<and> tS (fst (run child cs ca d)) \<longrightarrow>
         IfLet_getChildId tS sp idf (setK sp s (Some (fst (run child cs ca d)))) = Some (idf (fst (run child cs ca d))))) \<and>
   (falsy tA (extractC ap a) \<or> falsy tS (getK sp s) \<longrightarrow>
      fst (IfLet_reduce tS tA parent child sp ap idf s a d) = fst (run parent s a d) \<and>
      fst (resolveEffect (snd (IfLet_reduce tS tA parent child sp ap idf s a d)) ps h) =
        mount_units Effect_none (snd (run parent s a d))
          (IfLet_getChildId tS sp idf s) (IfLet_getChildId tS sp idf (fst (run parent s a d))) ps h)"
    using IfLet_mounted[of tS tA parent child sp ap idf s a d ps h]
    by (auto simp: IfLet_reduceChild_run IfLet_reduceChild_skip IfLet_getChildId_def)
  have B: "(extractC ap' a' = Some ca' \<and> tA' ca' \<and> extractC cp s' = Some cs' \<and> tS' cs' \<longrightarrow>
      fst (IfCaseLet_reduce tS' tA' parent' child' cp ap' idf' s' a' d') =
        fst (run parent' (embedC cp (fst (run child' cs' ca' d'))) a' d') \<and>
      fst (resolveEffect (snd (IfCaseLet_reduce tS' tA' parent' child' cp ap' idf' s' a' d')) ps h) =
        mount_units
          (Effect_map (embedC ap') (snd (run child' cs' ca' d')))
          (snd (run parent' (embedC cp (fst (run child' cs' ca' d'))) a' d'))
          (IfCaseLet_getChildId tS' cp idf' (embedC cp (fst (run child' cs' ca' d'))))
          (IfCaseLet_getChildId tS' cp idf' (fst (run parent' (embedC cp (fst (run child' cs' ca' d'))) a' d')))
          ps h \<and>
      (extractC cp (embedC cp (fst (run child' cs' ca' d'))) = Some (fst (run child' cs' ca' d')) \<and> tS' (fst (run child' cs' ca' d')) \<longrightarrow>
         IfCaseLet_getChildId tS' cp idf' (embedC cp (fst (run child' cs' ca' d'))) = Some (idf' (fst (run child' cs' ca' d'))))) \<and>
   (falsy tA' (extractC ap' a') \<or> falsy tS' (extractC cp s') \<longrightarrow>
      fst (IfCaseLet_reduce tS' tA' parent' child' cp ap' idf' s' a' d') = fst (run parent' s' a' d') \<and>
      fst (resolveEffect (snd (IfCaseLet_reduce tS' tA' parent' child' cp ap' idf' s' a' d')) ps h) =
        mount_units Effect_none (snd (run parent' s' a' d'))
          (IfCaseLet_getChildId tS' cp idf' s') (IfCaseLet_getChildId tS' cp idf' (fst (run parent' s' a' d'))) ps h)"
    using IfCaseLet_mounted[of tS' tA' parent' child' cp ap' idf' s' a' d' ps h]
    by (auto simp: IfCaseLet_reduceChild_run IfCaseLet_reduceChild_skip IfCaseLet_getChildId_def)
  have C: "(x \<noteq> y \<longrightarrow>
      mount_units e1 e2 (Some x) (Some y) ps h =
        fst (resolve_units (preorder e1 ps @ preorder e2 ps) h) @ [RCancelScope (ps @ [x])] \<and>
      (RCancelScope (ps @ [y]) \<in> set (mount_units e1 e2 (Some x) (Some y) ps h)) =
        (RCancelScope (ps @ [y]) \<in> set (fst (resolve_units (preorder e1 ps @ preorder e2 ps) h)))) \<and>
   mount_units e1 e2 (Some x) None ps h =
     fst (resolve_units (preorder e1 ps @ preorder e2 ps) h) @ [RCancelScope (ps @ [x])] \<and>
   mount_units e1 e2 None new ps h = fst (resolve_units (preorder e1 ps @ preorder e2 ps) h) \<and>
   mount_units e1 e2 old old ps h = fst (resolve_units (preorder e1 ps @ preorder e2 ps) h)"
    by (auto simp: mount_units_def split: option.splits)
  from A B C show ?thesis by blast
qed

theorem conditional_mount_teardown_witness:
  "extractC (casePath ''child'') (''child'', 3::nat) = Some 3 \<and> (3::nat) \<noteq> 0 \<and>
   getK slot (Some (''x'', 0)) = Some (''x'', 0) \<and>
   extractC (casePath ''loaded'') (''loaded'', (''x'', 0::int)) = Some (''x'', 0) \<and>
   ''x'' \<noteq> ''y'' \<and>
   fst (run counting_child (''x'', 0) 3 new_DependencyValues) = (''x'', 3) \<and>
   fst (IfLet_reduce (\<lambda>_. True) (\<lambda>n. n \<noteq> 0) evicting_parent counting_child slot (casePath ''child'') fst (Some (''x'', 0)) (''child'', 3) new_DependencyValues) = Some (''y'', 0) \<and>
   fst (resolveEffect (snd (IfLet_reduce (\<lambda>_. True) (\<lambda>n. n \<noteq> 0) evicting_parent counting_child slot (casePath ''child'') fst (Some (''x'', 0)) (''child'', 3) new_DependencyValues)) [] empty_Heap) =
     [RLongRunning None [] 0 (start (mapEffectNode (GeneratorN None (Yield 3 Done)) (Pair ''child''))), RAction (''evicted'', 0), RCancelScope [''x'']] \<and>
   RCancelScope [''y''] \<notin> set (fst (resolveEffect (snd (IfLet_reduce (\<lambda>_. True) (\<lambda>n. n \<noteq> 0) evicting_parent counting_child slot (casePath ''child'') fst (Some (''x'', 0)) (''child'', 3) new_DependencyValues)) [] empty_Heap)) \<and>
   fst (IfCaseLet_reduce (\<lambda>_. True) (\<lambda>n. n \<noteq> 0) evicting_parent_case counting_child (casePath ''loaded'') (casePath ''child'') fst (''loaded'', (''x'', 0)) (''child'', 3) new_DependencyValues) = (''loaded'', (''y'', 0)) \<and>
   fst (resolveEffect (snd (IfCaseLet_reduce (\<lambda>_. True) (\<lambda>n. n \<noteq> 0) evicting_parent_case counting_child (casePath ''loaded'') (casePath ''child'') fst (''loaded'', (''x'', 0)) (''child'', 3) new_DependencyValues)) [] empty_Heap) =
     [RLongRunning None [] 0 (start (mapEffectNode (GeneratorN None (Yield 3 Done)) (Pair ''child''))), RAction (''evicted'', 0), RCancelScope [''x'']] \<and>
   falsy (\<lambda>n. n \<noteq> 0) (extractC (casePath ''child'') (''tick'', 1::nat)) \<and>
   fst (IfLet_reduce (\<lambda>_. True) (\<lambda>n. n \<noteq> 0) evicting_parent counting_child slot (casePath ''child'') fst (Some (''x'', 5)) (''tick'', 1) new_DependencyValues) = Some (''y'', 0) \<and>
   fst (resolveEffect (snd (IfLet_reduce (\<lambda>_. True) (\<lambda>n. n \<noteq> 0) evicting_parent counting_child slot (casePath ''child'') fst (Some (''x'', 5)) (''tick'', 1) new_DependencyValues)) [] empty_Heap) =
     [RAction (''evicted'', 0), RCancelScope [''x'']] \<and>
   fst (resolveEffect (snd (IfCaseLet_reduce (\<lambda>_. True) (\<lambda>n. n \<noteq> 0) evicting_parent_case counting_child (casePath ''loaded'') (casePath ''child'') fst (''loaded'', (''x'', 5)) (''tick'', 1) new_DependencyValues)) [] empty_Heap) =
     [RAction (''evicted'', 0), RCancelScope [''x'']]"
  using conditional_mount_teardown
          [where tS = "\<lambda>_. True" and tA = "\<lambda>n. n \<noteq> 0" and parent = evicting_parent
             and child = counting_child and sp = slot and ap = "casePath ''child''" and idf = fst
             and s = "Some (''x'', 0)" and a = "(''child'', 3)" and d = new_DependencyValues
             and ca = 3 and cs = "(''x'', 0)"
             and tS' = "\<lambda>_. True" and tA' = "\<lambda>n. n \<noteq> 0" and parent' = evicting_parent_case
             and child' = counting_child and cp = "casePath ''loaded''" and ap' = "casePath ''child''"
             and idf' = fst and s' = "(''loaded'', (''x'', 0))" and a' = "(''child'', 3)"
             and d' = new_DependencyValues and ca' = 3 and cs' = "(''x'', 0)"
             and ps = "[]" and h = empty_Heap
             and x = "''x''" and y = "''y''" and ?e1.0 = Effect_none and ?e2.0 = Effect_none
             and old = None and new = None]
        conditional_mount_teardown
          [where tS = "\<lambda>_. True" and tA = "\<lambda>n. n \<noteq> 0" and parent = evicting_parent
             and child = counting_child and sp = slot and ap = "casePath ''child''" and idf = fst
             and s = "Some (''x'', 5)" and a = "(''tick'', 1)" and d = new_DependencyValues
             and ca = 3 and cs = "(''x'', 0)"
             and tS' = "\<lambda>_. True" and tA' = "\<lambda>n. n \<noteq> 0" and parent' = evicting_parent_case
             and child' = counting_child and cp = "casePath ''loaded''" and ap' = "casePath ''child''"
             and idf' = fst and s' = "(''loaded'', (''x'', 5))" and a' = "(''tick'', 1)"
             and d' = new_DependencyValues and ca' = 3 and cs' = "(''x'', 0)"
             and ps = "[]" and h = empty_Heap
             and x = "''x''" and y = "''y''" and ?e1.0 = Effect_none and ?e2.0 = Effect_none
             and old = None and new = None]
  by (simp add: counting_child_def evicting_parent_def evicting_parent_case_def slot_def
        casePath_def falsy_def mount_units_def Effect_none_def IfLet_getChildId_def
        IfCaseLet_getChildId_def alloc_EffectContext_def empty_Heap_def)

lemma IfLet_reduceChild_scope:
  "scope (snd (IfLet_reduceChild tS tA child sp ap idf s a d)) = []"
  by (simp add: IfLet_reduceChild_def Effect_none_def scope_Effect_map split_beta Let_def
        split: option.splits)

lemma IfCaseLet_reduceChild_scope:
  "scope (snd (IfCaseLet_reduceChild tS tA child sp ap idf s a d)) = []"
  by (simp add: IfCaseLet_reduceChild_def Effect_none_def scope_Effect_map split_beta Let_def
        split: option.splits)

lemma resolveEffect_none_scopes:
  "long_running_scopes (fst (resolveEffect Effect_none ps h)) = []"
  by (simp add: Effect_none_def)

lemma IfLet_reduceChild_scopes:
  "list_all (\<lambda>sc. sc = ps)
     (long_running_scopes
        (fst (resolveEffect (snd (IfLet_reduceChild tS tA child sp ap idf s a d)) ps h)))"
  by (simp add: IfLet_reduceChild_def resolveEffect_none_scopes resolveEffect_map_scopes
        split_beta Let_def split: option.splits)

lemma IfCaseLet_reduceChild_scopes:
  "list_all (\<lambda>sc. sc = ps)
     (long_running_scopes
        (fst (resolveEffect (snd (IfCaseLet_reduceChild tS tA child sp ap idf s a d)) ps h)))"
  by (simp add: IfCaseLet_reduceChild_def resolveEffect_none_scopes resolveEffect_map_scopes
        split_beta Let_def split: option.splits)

text \<open>
  C10. When the child runs, the child step of both conditional-mount reducers returns the
  child's effect mapped through the action embedding, and not the variant tagged with the
  child's identity that it also builds: the scope of the returned effect is \<open>[]\<close>, where
  the tagged variant has the identity as its scope. Every long-running unit that the
  returned effect resolves to under a parent scope \<open>ps\<close> has exactly the scope \<open>ps\<close>, the
  path at which the store registers it.
\<close>

theorem reduceChild_discards_scope:
  "(extractC ap a = Some ca \<and> tA ca \<and> getK sp s = Some cs \<and> tS cs \<longrightarrow>
      IfLet_reduceChild tS tA child sp ap idf s a d =
        (setK sp s (Some (fst (run child cs ca d))),
         Effect_map (embedC ap) (snd (run child cs ca d)))) \<and>
   scope (snd (IfLet_reduceChild tS tA child sp ap idf s a d)) = [] \<and>
   list_all (\<lambda>sc. sc = ps)
     (long_running_scopes
        (fst (resolveEffect (snd (IfLet_reduceChild tS tA child sp ap idf s a d)) ps h))) \<and>
   (extractC ap' a' = Some ca' \<and> tA' ca' \<and> extractC cp s' = Some cs' \<and> tS' cs' \<longrightarrow>
      IfCaseLet_reduceChild tS' tA' child' cp ap' idf' s' a' d' =
        (embedC cp (fst (run child' cs' ca' d')),
         Effect_map (embedC ap') (snd (run child' cs' ca' d')))) \<and>
   scope (snd (IfCaseLet_reduceChild tS' tA' child' cp ap' idf' s' a' d')) = [] \<and>
   list_all (\<lambda>sc. sc = ps)
     (long_running_scopes
        (fst (resolveEffect (snd (IfCaseLet_reduceChild tS' tA' child' cp ap' idf' s' a' d')) ps h))) \<and>
   scope (cancellationScope i (Effect_map f e)) = [i]"
proof (intro conjI impI)
  assume "extractC ap a = Some ca \<and> tA ca \<and> getK sp s = Some cs \<and> tS cs"
  then show "IfLet_reduceChild tS tA child sp ap idf s a d =
        (setK sp s (Some (fst (run child cs ca d))),
         Effect_map (embedC ap) (snd (run child cs ca d)))"
    by (simp add: IfLet_reduceChild_def split_beta Let_def)
next
  assume "extractC ap' a' = Some ca' \<and> tA' ca' \<and> extractC cp s' = Some cs' \<and> tS' cs'"
  then show "IfCaseLet_reduceChild tS' tA' child' cp ap' idf' s' a' d' =
        (embedC cp (fst (run child' cs' ca' d')),
         Effect_map (embedC ap') (snd (run child' cs' ca' d')))"
    by (simp add: IfCaseLet_reduceChild_def split_beta Let_def)
next
  show "scope (cancellationScope i (Effect_map f e)) = [i]"
    by (cases e) simp
qed (rule IfLet_reduceChild_scope IfLet_reduceChild_scopes IfCaseLet_reduceChild_scope
       IfCaseLet_reduceChild_scopes)+

theorem reduceChild_discards_scope_witness:
  "extractC (casePath ''child'') (''child'', 3::nat) = Some 3 \<and> (3::nat) \<noteq> 0 \<and>
   getK slot (Some (''x'', 0)) = Some (''x'', 0) \<and>
   extractC (casePath ''loaded'') (''loaded'', (''x'', 0::int)) = Some (''x'', 0) \<and>
   fst (IfLet_reduceChild (\<lambda>_. True) (\<lambda>n. n \<noteq> 0) counting_child slot (casePath ''child'') fst (Some (''x'', 0)) (''child'', 3) new_DependencyValues) = Some (''x'', 3) \<and>
   long_running_scopes (fst (resolveEffect (snd (IfLet_reduceChild (\<lambda>_. True) (\<lambda>n. n \<noteq> 0) counting_child slot (casePath ''child'') fst (Some (''x'', 0)) (''child'', 3) new_DependencyValues)) [] empty_Heap)) = [[]] \<and>
   fst (IfCaseLet_reduceChild (\<lambda>_. True) (\<lambda>n. n \<noteq> 0) counting_child (casePath ''loaded'') (casePath ''child'') fst (''loaded'', (''x'', 0)) (''child'', 3) new_DependencyValues) = (''loaded'', (''x'', 3)) \<and>
   long_running_scopes (fst (resolveEffect (snd (IfCaseLet_reduceChild (\<lambda>_. True) (\<lambda>n. n \<noteq> 0) counting_child (casePath ''loaded'') (casePath ''child'') fst (''loaded'', (''x'', 0)) (''child'', 3) new_DependencyValues)) [] empty_Heap)) = [[]]"
  using reduceChild_discards_scope
          [where tS = "\<lambda>_. True" and tA = "\<lambda>n. n \<noteq> 0" and child = counting_child
             and sp = slot and ap = "casePath ''child''" and idf = fst
             and s = "Some (''x'', 0)" and a = "(''child'', 3)" and d = new_DependencyValues
             and ca = 3 and cs = "(''x'', 0)"
             and tS' = "\<lambda>_. True" and tA' = "\<lambda>n. n \<noteq> 0" and child' = counting_child
             and cp = "casePath ''loaded''" and ap' = "casePath ''child''" and idf' = fst
             and s' = "(''loaded'', (''x'', 0))" and a' = "(''child'', 3)"
             and d' = new_DependencyValues and ca' = 3 and cs' = "(''x'', 0)"
             and ps = "[]" and h = empty_Heap and i = "''x''" and f = Suc and e = Effect_none]
  by (simp add: counting_child_def slot_def casePath_def alloc_EffectContext_def)

text \<open>
  C2. With a case path for the state, \<open>Scope\<close> does not return the parent state it was
  given: a child whose \<^verbatim>\<open>_reduce\<close> method returns its state plus one turns the parent
  \<open>(counter, 5)\<close> into \<open>(counter, 6)\<close>.
\<close>

theorem Scope_partial_counterexample:
  "extractC (casePath ''counter'') (''counter'', 5::int) = Some 5 \<and>
   extractC (casePath ''child'') (''child'', ''tick'') = Some ''tick'' \<and>
   fst (Scope_reduce (\<lambda>n::int. n \<noteq> 0) (\<lambda>a::string. a \<noteq> [])
          (Inr (casePath ''counter'')) (casePath ''child'')
          (PrimitiveReducer (\<lambda>n a deps. (n + 1, Effect_none)))
          (''counter'', 5) (''child'', ''tick'') new_DependencyValues)
     = (''counter'', 6) \<and>
   fst (Scope_reduce (\<lambda>n::int. n \<noteq> 0) (\<lambda>a::string. a \<noteq> [])
          (Inr (casePath ''counter'')) (casePath ''child'')
          (PrimitiveReducer (\<lambda>n a deps. (n + 1, Effect_none)))
          (''counter'', 5) (''child'', ''tick'') new_DependencyValues)
     \<noteq> (''counter'', 5)"
  by (simp add: Scope_reduce_def casePath_def)

text \<open>
  C2, as the code has it. With a case path for the state, when the child state and the
  child action both extract to truthy values, \<open>Scope\<close> returns the parent state that the
  case path embeds from the child's new state, together with the child's effect mapped
  through the action embedding. For a path built by \<open>casePath\<close> the child's new state can
  be extracted from that parent state again: it has been written back.
\<close>

theorem Scope_partial_embeds_child:
  "extractC cp s = Some cs \<and> truthyS cs \<and> extractC ap a = Some ca \<and> truthyA ca \<longrightarrow>
     Scope_reduce truthyS truthyA (Inr cp) ap child s a d =
       (embedC cp (fst (run child cs ca d)), Effect_map (embedC ap) (snd (run child cs ca d))) \<and>
     run (Scope truthyS truthyA (Inr cp) ap child) s a d =
       (embedC cp (fst (run child cs ca d)), Effect_map (embedC ap) (snd (run child cs ca d))) \<and>
     (cp = casePath k \<longrightarrow>
        extractC cp (fst (Scope_reduce truthyS truthyA (Inr cp) ap child s a d)) =
          Some (fst (run child cs ca d)))"
proof (intro impI)
  assume hyp: "extractC cp s = Some cs \<and> truthyS cs \<and> extractC ap a = Some ca \<and> truthyA ca"
  then have eq: "Scope_reduce truthyS truthyA (Inr cp) ap child s a d =
       (embedC cp (fst (run child cs ca d)), Effect_map (embedC ap) (snd (run child cs ca d)))"
    by (simp add: Scope_reduce_def split_beta)
  have "extractC cp (fst (Scope_reduce truthyS truthyA (Inr cp) ap child s a d)) =
          Some (fst (run child cs ca d))" if "cp = casePath k"
    by (simp only: eq fst_conv) (simp add: that casePath_def)
  with eq show "Scope_reduce truthyS truthyA (Inr cp) ap child s a d =
       (embedC cp (fst (run child cs ca d)), Effect_map (embedC ap) (snd (run child cs ca d))) \<and>
     run (Scope truthyS truthyA (Inr cp) ap child) s a d =
       (embedC cp (fst (run child cs ca d)), Effect_map (embedC ap) (snd (run child cs ca d))) \<and>
     (cp = casePath k \<longrightarrow>
        extractC cp (fst (Scope_reduce truthyS truthyA (Inr cp) ap child s a d)) =
          Some (fst (run child cs ca d)))"
    by (simp add: Scope_def)
qed

theorem Scope_partial_embeds_child_witness:
  "extractC (casePath ''counter'') (''counter'', 5::int) = Some 5 \<and> (5::int) \<noteq> 0 \<and>
   extractC (casePath ''child'') (''child'', ''tick'') = Some ''tick'' \<and> ''tick'' \<noteq> [] \<and>
   Scope_reduce (\<lambda>n::int. n \<noteq> 0) (\<lambda>a::string. a \<noteq> [])
          (Inr (casePath ''counter'')) (casePath ''child'')
          (PrimitiveReducer (\<lambda>n a deps. (n + 1, Effect (Some (ActionN ''tock'')) [] [])))
          (''counter'', 5) (''child'', ''tick'') new_DependencyValues
     = ((''counter'', 6), Effect (Some (ActionN (''child'', ''tock''))) [] [])"
  using Scope_partial_embeds_child
          [of "casePath ''counter''" "(''counter'', 5::int)" 5 "\<lambda>n::int. n \<noteq> 0"
              "casePath ''child''" "(''child'', ''tick'')" "''tick''" "\<lambda>a::string. a \<noteq> []"
              "PrimitiveReducer (\<lambda>n a deps. (n + 1, Effect (Some (ActionN ''tock'')) [] []))"
              new_DependencyValues "''counter''"]
  by (simp add: casePath_def)

text \<open>Why the values must be truthy: the child state \<open>0\<close> extracts, but \<^verbatim>\<open>!childState\<close>
  holds for it, and \<open>Scope\<close> returns the parent state and no effect without running the
  child.\<close>

lemma Scope_partial_falsy_child_state:
  "extractC (casePath ''counter'') (''counter'', 0::int) = Some 0 \<and>
   Scope_reduce (\<lambda>n::int. n \<noteq> 0) (\<lambda>a::string. a \<noteq> [])
          (Inr (casePath ''counter'')) (casePath ''child'')
          (PrimitiveReducer (\<lambda>n a deps. (n + 1, Effect (Some (ActionN ''tock'')) [] [])))
          (''counter'', 0) (''child'', ''tick'') new_DependencyValues
     = ((''counter'', 0), Effect_none)"
  by (simp add: Scope_reduce_def casePath_def)

section \<open>Properties of the store\<close>

lemma cancel_named_frame:
  "store (cancel_named i w) = store w" "notified (cancel_named i w) = notified w"
  by (simp_all add: cancel_named_def split: option.splits)

lemma processResolvedEffect_frame:
  "callbacks (store (snd (processResolvedEffect x pw))) = callbacks (store (snd pw)) \<and>
   namedEffects (store (snd (processResolvedEffect x pw))) = namedEffects (store (snd pw)) \<and>
   reducer (store (snd (processResolvedEffect x pw))) = reducer (store (snd pw)) \<and>
   state (store (snd (processResolvedEffect x pw))) = state (store (snd pw)) \<and>
   notified (snd (processResolvedEffect x pw)) = notified (snd pw)"
  by (cases x; cases pw) (simp_all add: cancel_named_frame split_beta Let_def split: option.splits)

lemma processResolvedEffects_frame:
  "callbacks (store (snd (processResolvedEffects xs pw))) = callbacks (store (snd pw)) \<and>
   namedEffects (store (snd (processResolvedEffects xs pw))) = namedEffects (store (snd pw)) \<and>
   reducer (store (snd (processResolvedEffects xs pw))) = reducer (store (snd pw)) \<and>
   state (store (snd (processResolvedEffects xs pw))) = state (store (snd pw)) \<and>
   notified (snd (processResolvedEffects xs pw)) = notified (snd pw)"
  by (induction xs arbitrary: pw) (simp_all add: processResolvedEffect_frame)

lemma processResolvedEffects_pending:
  "fst (processResolvedEffects xs pw) = fst pw @ action_values xs"
proof (induction xs arbitrary: pw)
  case Nil
  then show ?case by simp
next
  case (Cons x xs)
  show ?case by (cases x; cases pw) (simp_all add: Cons.IH split_beta Let_def)
qed

lemma processAction_frame:
  "callbacks (store (snd (processAction a pw))) = callbacks (store (snd pw)) \<and>
   namedEffects (store (snd (processAction a pw))) = namedEffects (store (snd pw)) \<and>
   reducer (store (snd (processAction a pw))) = reducer (store (snd pw)) \<and>
   notified (snd (processAction a pw)) = notified (snd pw)"
  by (simp add: processAction_def split_beta Let_def processResolvedEffects_frame)

lemma processAction_pending:
  "fst (processAction a pw) =
     fst pw @ action_values (fst (resolveEffect
        (snd (run (reducer (store (snd pw))) (state (store (snd pw))) a new_DependencyValues))
        [] (heap (snd pw))))"
  by (simp add: processAction_def split_beta Let_def processResolvedEffects_pending)

lemma drain_frame:
  assumes "drain t pw = Some w'"
  shows "callbacks (store w') = callbacks (store (snd pw)) \<and>
     namedEffects (store w') = namedEffects (store (snd pw)) \<and>
     reducer (store w') = reducer (store (snd pw)) \<and>
     notified w' = notified (snd pw)"
proof (rule drain.raw_induct
    [where P = "\<lambda>t pw w'. callbacks (store w') = callbacks (store (snd pw)) \<and>
       namedEffects (store w') = namedEffects (store (snd pw)) \<and>
       reducer (store w') = reducer (store (snd pw)) \<and>
       notified w' = notified (snd pw)", OF _ assms])
  fix drain' :: "('b \<Rightarrow> bool) \<Rightarrow> 'b list \<times> ('a, 'b, 'c) World \<Rightarrow> ('a, 'b, 'c) World option"
  fix t pw w'
  assume IH: "\<And>t pw w'. drain' t pw = Some w' \<Longrightarrow>
       callbacks (store w') = callbacks (store (snd pw)) \<and>
       namedEffects (store w') = namedEffects (store (snd pw)) \<and>
       reducer (store w') = reducer (store (snd pw)) \<and>
       notified w' = notified (snd pw)"
  assume step: "(case fst pw of
        [] \<Rightarrow> Some (snd pw)
      | next # rest \<Rightarrow>
          if \<not> t next then Some (snd pw)
          else drain' t (processAction next (rest, snd pw))) = Some w'"
  show "callbacks (store w') = callbacks (store (snd pw)) \<and>
       namedEffects (store w') = namedEffects (store (snd pw)) \<and>
       reducer (store w') = reducer (store (snd pw)) \<and>
       notified w' = notified (snd pw)"
  proof (cases "fst pw")
    case Nil
    with step show ?thesis by simp
  next
    case (Cons nxt rest)
    show ?thesis
    proof (cases "t nxt")
      case False
      with step Cons show ?thesis by simp
    next
      case True
      with step Cons have "drain' t (processAction nxt (rest, snd pw)) = Some w'" by simp
      from IH[OF this] show ?thesis by (simp add: processAction_frame)
    qed
  qed
qed

lemma send_frame:
  assumes "send sameS t a w = Some w'"
  shows "callbacks (store w') = callbacks (store w) \<and>
         namedEffects (store w') = namedEffects (store w) \<and>
         notified w' = notified w @
           (if sameS (state (store w)) (state (store w')) then []
            else map (\<lambda>(i, callback). (callback, state (store w'))) (callbacks (store w)))"
proof -
  from assms obtain w1 where d: "drain t ([a], w) = Some w1"
    and w': "w' = (if sameS (state (store w)) (state (store w1)) then w1 else notify w1)"
    by (auto simp: send_def Let_def split: option.splits if_splits)
  from drain_frame[OF d] show ?thesis
    by (auto simp: w' notify_def)
qed

lemma send_returns:
  assumes "action_values (fst (resolveEffect
        (snd (run (reducer (store w)) (state (store w)) a new_DependencyValues)) [] (heap w))) = []"
  shows "send sameS t a w \<noteq> None"
proof (cases "t a")
  case False
  then show ?thesis by (simp add: send_def drain.simps)
next
  case True
  have "fst (processAction a ([], w)) = []"
    using assms by (simp add: processAction_pending)
  then have "drain t (processAction a ([], w)) = Some (snd (processAction a ([], w)))"
    by (subst drain.simps) simp
  then show ?thesis using True
    by (simp add: send_def Let_def drain.simps[of t "([a], w)"])
qed

lemma contexts_at_empty: "contexts_at (EffectContextTree [] None) sc = []"
  by (cases sc) simp_all

lemma EffectContextTree_add_at:
  "\<not> isCancelled (cells h ctx) \<Longrightarrow>
   contexts_at (EffectContextTree_add ctx sc t h) sc = contexts_at t sc @ [ctx]"
proof (induction sc arbitrary: t)
  case Nil
  then show ?case by (cases t) simp
next
  case (Cons head rest)
  obtain ctxs ch where t: "t = EffectContextTree ctxs ch" by (cases t)
  show ?case
    using Cons.prems Cons.IH[OF Cons.prems]
    by (cases ch) (auto simp: t Let_def map_of_Map_set contexts_at_empty split: option.splits)
qed

text \<open>What the long-running case does when the map does hold a context under the id: it
  cancels that context, then adds the new one to the tree, then launches the task.\<close>

lemma processResolvedEffect_long_running:
  assumes "i \<noteq> []" and "map_of (namedEffects (store w)) i = Some old"
  shows "processResolvedEffect (RLongRunning (Some i) sc ctx gen) (pending, w) =
     (pending,
      w\<lparr>store := (store w)\<lparr>effectTree :=
                    EffectContextTree_add ctx sc (effectTree (store w)) (cancel_at old (heap w))\<rparr>,
        heap := cancel_at old (heap w),
        tasks := tasks w @ [(ctx, gen)]\<rparr>)"
  using assms by (simp add: cancel_named_def Let_def)

text \<open>No call of \<open>send\<close> writes to the map of named effects.\<close>

lemma send_namedEffects:
  "send sameS t a w = Some w' \<Longrightarrow> namedEffects (store w') = namedEffects (store w)"
  using send_frame[of sameS t a w w'] by simp

text \<open>
  C1. A store built by \<open>new_World\<close> starts with an empty map of named effects, and \<open>send\<close>
  never adds to it. Two sends to the polling store, each resolving a generator under the
  id \<open>poll\<close>, launch two tasks with the contexts 0 and 1 and add both contexts to the tree
  at the root path; the map is still empty, and the first context is not cancelled.
\<close>

theorem second_poll_leaves_first_running:
  "map_option (\<lambda>w. (map fst (tasks w), namedEffects (store w), effectTree (store w),
                     isCancelled (cells (heap w) 0), isCancelled (cells (heap w) 1)))
     (Option.bind
        (send (=) (\<lambda>a. a \<noteq> []) ''start'' (new_World 0 polling :: (nat, string, unit) World))
        (send (=) (\<lambda>a. a \<noteq> []) ''again''))
   = Some ([0, 1], [], EffectContextTree [0, 1] None, False, False)"
  by (simp add: send_def drain.simps processAction_def new_World_def new_RootStore_def polling_def
        alloc_EffectContext_def empty_Heap_def new_EffectContext_def cancel_named_def)

text \<open>
  C8. When \<open>send\<close> returns, the subscribers are those registered before the call. If the
  state it leaves is \<^verbatim>\<open>===\<close> to the state at the start of the call, no subscriber has
  been called; otherwise each registered subscriber has been called once, in order of
  registration, with the final state. \<open>send\<close> does return when the action it is given
  leads to no further action. On state objects the test is on identity: a store whose
  reducer builds a new object notifies its subscribers even when the new object has the
  contents of the old one.
\<close>

theorem send_notifies_subscribers:
  "(send sameS t a w = Some w' \<longrightarrow>
      callbacks (store w') = callbacks (store w) \<and>
      (sameS (state (store w)) (state (store w')) \<longrightarrow> notified w' = notified w) \<and>
      (\<not> sameS (state (store w)) (state (store w')) \<longrightarrow>
         notified w' =
           notified w @ map (\<lambda>(i, callback). (callback, state (store w'))) (callbacks (store w')))) \<and>
   (action_values (fst (resolveEffect
        (snd (run (reducer (store w)) (state (store w)) a new_DependencyValues)) [] (heap w))) = []
      \<longrightarrow> send sameS t a w \<noteq> None)"
proof (intro conjI impI)
  assume "action_values (fst (resolveEffect
        (snd (run (reducer (store w)) (state (store w)) a new_DependencyValues)) [] (heap w))) = []"
  then show "send sameS t a w \<noteq> None" by (rule send_returns)
next
  assume r: "send sameS t a w = Some w'"
  show "callbacks (store w') = callbacks (store w)"
    using send_frame[OF r] by simp
  show "notified w' = notified w" if "sameS (state (store w)) (state (store w'))"
    using send_frame[OF r] that by simp
  show "notified w' =
      notified w @ map (\<lambda>(i, callback). (callback, state (store w'))) (callbacks (store w'))"
    if "\<not> sameS (state (store w)) (state (store w'))"
    using send_frame[OF r] that by simp
qed

theorem send_notifies_subscribers_witness:
  "send same_object (\<lambda>_. True) incrementButtonTapped (counter_world SampleFeature_obj) \<noteq> None \<and>
   \<not> same_object (state (store (counter_world SampleFeature_obj))) (state (store (the (send same_object (\<lambda>_. True) incrementButtonTapped (counter_world SampleFeature_obj))))) \<and>
   notified (the (send same_object (\<lambda>_. True) incrementButtonTapped (counter_world SampleFeature_obj))) =
     [(''render'', \<lparr>addr = 1, next_free = 2, contents = \<lparr>count = 1, numberFactAlert = None\<rparr>\<rparr>),
      (''logger'', \<lparr>addr = 1, next_free = 2, contents = \<lparr>count = 1, numberFactAlert = None\<rparr>\<rparr>)] \<and>
   send same_object (\<lambda>_. True) incrementButtonTapped (counter_world bouncing) \<noteq> None \<and>
   contents (state (store (the (send same_object (\<lambda>_. True) incrementButtonTapped (counter_world bouncing))))) = contents (state (store (counter_world bouncing))) \<and>
   \<not> same_object (state (store (counter_world bouncing))) (state (store (the (send same_object (\<lambda>_. True) incrementButtonTapped (counter_world bouncing))))) \<and>
   notified (the (send same_object (\<lambda>_. True) incrementButtonTapped (counter_world bouncing))) =
     [(''render'', \<lparr>addr = 2, next_free = 3, contents = \<lparr>count = 0, numberFactAlert = None\<rparr>\<rparr>),
      (''logger'', \<lparr>addr = 2, next_free = 3, contents = \<lparr>count = 0, numberFactAlert = None\<rparr>\<rparr>)] \<and>
   send same_object (\<lambda>_. True) incrementButtonTapped (counter_world EmptyReducer) \<noteq> None \<and>
   same_object (state (store (counter_world EmptyReducer))) (state (store (the (send same_object (\<lambda>_. True) incrementButtonTapped (counter_world EmptyReducer))))) \<and>
   notified (the (send same_object (\<lambda>_. True) incrementButtonTapped (counter_world EmptyReducer))) = [] \<and>
   send same_object (\<lambda>_. True) (''child'', 1) (loaded_world) \<noteq> None \<and>
   contents (state (store (the (send same_object (\<lambda>_. True) (''child'', 1) (loaded_world))))) = contents (state (store (loaded_world))) \<and>
   \<not> same_object (state (store (loaded_world))) (state (store (the (send same_object (\<lambda>_. True) (''child'', 1) (loaded_world))))) \<and>
   notified (the (send same_object (\<lambda>_. True) (''child'', 1) (loaded_world))) =
     [(''render'', \<lparr>addr = 2, next_free = 3, contents = (''loaded'', 0, 0)\<rparr>)]"
  using send_notifies_subscribers
          [of same_object "\<lambda>_. True" incrementButtonTapped "counter_world SampleFeature_obj" "the (send same_object (\<lambda>_. True) incrementButtonTapped (counter_world SampleFeature_obj))"]
        send_notifies_subscribers
          [of same_object "\<lambda>_. True" incrementButtonTapped "counter_world bouncing" "the (send same_object (\<lambda>_. True) incrementButtonTapped (counter_world bouncing))"]
        send_notifies_subscribers
          [of same_object "\<lambda>_. True" incrementButtonTapped "counter_world EmptyReducer" "the (send same_object (\<lambda>_. True) incrementButtonTapped (counter_world EmptyReducer))"]
        send_notifies_subscribers
          [of same_object "\<lambda>_. True" "(''child'', 1)" "loaded_world" "the (send same_object (\<lambda>_. True) (''child'', 1) (loaded_world))"]
  by (simp add: send_def drain.simps processAction_def new_World_def new_RootStore_def
        subscribe_def counter_world_def loaded_world_def SampleFeature_obj_def bouncing_def
        SampleFeature_def EmptyReducer_def Effect_none_def notify_def produce_def
        same_object_def Scope_def Scope_reduce_def casePath_obj_def casePath_def)

end
